theory Spec2Isabelle
  imports Main "HOL-Library.AList" "HOL-Library.Word"
begin

section \<open>The XML exporter of asyncua (asyncua/common/xmlexporter.py)\<close>

text \<open>
  A shallow embedding of class \<open>XmlExporter\<close>. Python names are kept; a leading
  underscore, which Isabelle does not allow, is dropped (\<open>_make_idx_dict\<close> is
  \<open>make_idx_dict\<close>). The source has both \<open>value_to_etree\<close> and
  \<open>_value_to_etree\<close>: the second is written \<open>value_to_etree'\<close>.

  Every \<open>await\<close> of the source is a sequential call (the exporter runs one task), so
  a coroutine is modelled as the function it computes. Exceptions are values of the
  type \<open>error\<close>; a function that can raise returns \<open>error + 'a\<close>.
\<close>

subsection \<open>Data model\<close>

datatype error =
    UaError | KeyError | AttributeError | TypeError | IndexError | UnicodeDecodeError

type_synonym bytes = "8 word list"

text \<open>
  The identifier of a NodeId is numeric, a string, a GUID or an opaque byte sequence.
  Equality of NodeIds (and hashing, for dictionary keys) is on the pair of namespace
  index and identifier.
\<close>

datatype node_identifier = Numeric int | StringId string | GuidId string | OpaqueId bytes

record node_id =
  Identifier :: node_identifier
  NamespaceIndex :: nat

text \<open>\<open>ua.NodeId(n)\<close>: a numeric NodeId in namespace 0.\<close>

definition NodeId_of :: "int \<Rightarrow> node_id" where
  "NodeId_of n = \<lparr>Identifier = Numeric n, NamespaceIndex = 0\<rparr>"

record qualified_name =
  qn_Name :: string
  qn_NamespaceIndex :: nat

record reference =
  ReferenceTypeId :: node_id
  IsForward :: bool
  NodeId :: node_id

text \<open>An \<open>xml.etree.ElementTree.Element\<close>: tag, attribute dictionary (in insertion
  order), text and children.\<close>

datatype etree =
  Element (tag: string) (attrib: "(string \<times> string) list") (el_text: "string option")
    (children: "etree list")

text \<open>\<open>Et.SubElement(el, name)\<close> appends a new child; the model appends the child
  once the code has finished filling it.\<close>

definition append_child :: "etree \<Rightarrow> etree \<Rightarrow> etree" where
  "append_child el c = Element (tag el) (attrib el) (el_text el) (children el @ [c])"

definition set_attrib :: "string \<Rightarrow> string \<Rightarrow> etree \<Rightarrow> etree" where
  "set_attrib k v el = Element (tag el) (AList.update k v (attrib el)) (el_text el) (children el)"

definition set_text :: "string option \<Rightarrow> etree \<Rightarrow> etree" where
  "set_text t el = Element (tag el) (attrib el) t (children el)"

text \<open>\<open>el.insert(i, c)\<close>, Python's list insertion.\<close>

definition insert_child :: "nat \<Rightarrow> etree \<Rightarrow> etree \<Rightarrow> etree" where
  "insert_child i c el =
     Element (tag el) (attrib el) (el_text el) (take i (children el) @ [c] @ drop i (children el))"

definition add_sub_el :: "etree \<Rightarrow> string \<Rightarrow> string option \<Rightarrow> etree" where
  "add_sub_el el name txt = append_child el (Element name [] txt [])"

text \<open>
  A value read from the address space: \<open>None\<close>, a scalar, a list (or tuple), or an
  object with \<open>ua_types\<close>, given as its fields in declared order, each with its name,
  its declared type name and its value (\<open>getattr(val, name)\<close>).
\<close>

datatype uaval =
    VNone
  | VBool bool
  | VInt int
  | VStr string
  | VBytes bytes
  | VNodeId node_id
  | VGuid string
  | VList "uaval list"
  | VObj "(string \<times> string \<times> uaval) list"

datatype node_class =
    Object | ObjectType | Variable | VariableType | ReferenceType | DataType | Method
  | OtherClass

record structure_field =
  sf_Name :: string
  sf_DataType :: node_id
  sf_ValueRank :: int
  sf_ArrayDimensions :: "int list"
  sf_IsOptional :: bool

record enum_field =
  ef_Name :: string
  ef_Value :: int

text \<open>The value of the DataTypeDefinition attribute, when it is not \<open>None\<close>.\<close>

datatype definition_value =
    StructureDefinition "structure_field list"
  | EnumDefinition "enum_field list"
  | UnknownDefinition

text \<open>
  A node of the address space, as the exporter sees it: its NodeId and the result of
  each read, which is a value or the exception the read raises.
\<close>

record node =
  nodeid :: node_id
  read_node_class :: "error + node_class"
  read_browse_name :: "error + qualified_name"
  read_display_name :: "error + string option"
  read_description :: "error + string option option"
  get_parent :: "error + node_id option"
  get_references :: "error + reference list"
  read_data_type_definition :: "error + definition_value option"
  read_data_type :: "error + node_id"
  read_value_rank :: "error + int"
  read_array_dimensions :: "error + int list option"
  read_data_value :: "error + uaval"

text \<open>
  What the exporter takes from outside this file: the tables \<open>ua.ObjectIds\<close> (name to
  number) and \<open>ua.ObjectIdNames\<close> (number to name), the string forms of NodeId and
  QualifiedName, Python's \<open>str\<close> and \<open>bytes.decode\<close>, and the server (namespace
  array, base data type of a type node).
\<close>

record env =
  ObjectIds :: "string \<rightharpoonup> int"
  ObjectIdNames :: "int \<rightharpoonup> string"
  to_string :: "node_id \<Rightarrow> string"
  qn_to_string :: "qualified_name \<Rightarrow> string"
  py_str :: "uaval \<Rightarrow> string"
  decode_utf8 :: "bytes \<Rightarrow> error + string"
  get_namespace_array :: "error + string list"
  get_base_data_type :: "node_id \<Rightarrow> error + node_id"

text \<open>The state of an \<open>XmlExporter\<close> object.\<close>

record exporter =
  aliases :: "(node_id \<times> string) list"
  addr_idx_to_xml_idx :: "(nat \<times> nat) list"
  etree_root :: etree

text \<open>Sequencing of calls that can raise.\<close>

definition bindE :: "'e + 'a \<Rightarrow> ('a \<Rightarrow> 'e + 'b) \<Rightarrow> 'e + 'b" where
  "bindE m f = (case m of Inl e \<Rightarrow> Inl e | Inr x \<Rightarrow> f x)"

subsection \<open>Namespace indices\<close>

text \<open>\<open>_get_ns_idxs_of_nodes\<close>. The indices of one node: its NodeId's, its browse
  name's, and the target NodeId's of each reference; \<open>list(set(...))\<close> removes the
  duplicates (in an order the source does not rely on).\<close>

definition node_idxs :: "node \<Rightarrow> error + nat list" where
  "node_idxs n =
     bindE (read_browse_name n) (\<lambda>bname.
     bindE (get_references n) (\<lambda>refs.
       Inr (remdups ([NamespaceIndex (nodeid n), qn_NamespaceIndex bname]
              @ map (\<lambda>ref. NamespaceIndex (NodeId ref)) refs))))"

fun append_new_idxs :: "nat list \<Rightarrow> nat list \<Rightarrow> nat list" where
  "append_new_idxs idxs [] = idxs"
| "append_new_idxs idxs (i # is) =
     append_new_idxs (if i \<noteq> 0 \<and> i \<notin> set idxs then idxs @ [i] else idxs) is"

fun get_ns_idxs_loop :: "nat list \<Rightarrow> node list \<Rightarrow> error + nat list" where
  "get_ns_idxs_loop idxs [] = Inr idxs"
| "get_ns_idxs_loop idxs (n # nodes) =
     (case node_idxs n of
        Inl e \<Rightarrow> Inl e
      | Inr is \<Rightarrow> get_ns_idxs_loop (append_new_idxs idxs is) nodes)"

definition get_ns_idxs_of_nodes :: "node list \<Rightarrow> error + nat list" where
  "get_ns_idxs_of_nodes nodes = get_ns_idxs_loop [] nodes"

text \<open>\<open>ns_array.index(uri)\<close>, the position of the first occurrence; the source calls
  it only after \<open>uri in ns_array\<close>.\<close>

fun list_index :: "'a list \<Rightarrow> 'a \<Rightarrow> nat" where
  "list_index [] x = 0"
| "list_index (y # ys) x = (if y = x then 0 else Suc (list_index ys x))"

fun add_idxs_from_uris :: "nat list \<Rightarrow> string list \<Rightarrow> string list \<Rightarrow> nat list" where
  "add_idxs_from_uris idxs [] ns_array = idxs"
| "add_idxs_from_uris idxs (uri # uris) ns_array =
     add_idxs_from_uris
       (if uri \<in> set ns_array
        then (let i = list_index ns_array uri in if i \<notin> set idxs then idxs @ [i] else idxs)
        else idxs)
       uris ns_array"

text \<open>\<open>_make_idx_dict\<close>: the loop over \<open>enumerate(idxs)\<close>, with the dictionary built so
  far, the position \<open>xml_idx\<close> and the length of the namespace array; \<open>break\<close> returns
  the dictionary as it is.\<close>

fun make_idx_loop :: "(nat \<times> nat) list \<Rightarrow> nat \<Rightarrow> nat list \<Rightarrow> nat \<Rightarrow> (nat \<times> nat) list" where
  "make_idx_loop d xml_idx [] n = d"
| "make_idx_loop d xml_idx (addr_idx # idxs) n =
     (if addr_idx \<ge> n then d
      else make_idx_loop (AList.update addr_idx (xml_idx + 1) d) (xml_idx + 1) idxs n)"

definition make_idx_dict :: "nat list \<Rightarrow> string list \<Rightarrow> (nat \<times> nat) list" where
  "make_idx_dict idxs ns_array = make_idx_loop [(0, 0)] 0 (sort idxs) (length ns_array)"

text \<open>\<open>ns_array[i]\<close> raises IndexError out of range.\<close>

definition list_get :: "'a list \<Rightarrow> nat \<Rightarrow> error + 'a" where
  "list_get xs i = (if i < length xs then Inr (xs ! i) else Inl IndexError)"

fun get_all :: "'a list \<Rightarrow> nat list \<Rightarrow> error + 'a list" where
  "get_all xs [] = Inr []"
| "get_all xs (i # is) =
     (case list_get xs i of
        Inl e \<Rightarrow> Inl e
      | Inr x \<Rightarrow> (case get_all xs is of Inl e \<Rightarrow> Inl e | Inr ys \<Rightarrow> Inr (x # ys)))"

fun add_uri_els :: "etree \<Rightarrow> string list \<Rightarrow> etree" where
  "add_uri_els el [] = el"
| "add_uri_els el (uri # uris) = add_uri_els (add_sub_el el ''Uri'' (Some uri)) uris"

definition add_namespace_uri_els :: "exporter \<Rightarrow> string list \<Rightarrow> exporter" where
  "add_namespace_uri_els self uris =
     self\<lparr>etree_root :=
       insert_child 0 (add_uri_els (Element ''NamespaceUris'' [] None []) uris) (etree_root self)\<rparr>"

text \<open>\<open>_add_namespaces\<close>; \<open>uris\<close> is \<open>None\<close> or a list, and \<open>if uris\<close> skips the empty
  list too.\<close>

definition add_namespaces :: "env \<Rightarrow> exporter \<Rightarrow> node list \<Rightarrow> string list option \<Rightarrow> error + exporter" where
  "add_namespaces E self nodes uris =
     bindE (get_ns_idxs_of_nodes nodes) (\<lambda>idxs.
     bindE (get_namespace_array E) (\<lambda>ns_array.
       let idxs' = (case uris of
                      None \<Rightarrow> idxs
                    | Some us \<Rightarrow> if us = [] then idxs else add_idxs_from_uris idxs us ns_array);
           d = make_idx_dict idxs' ns_array
       in bindE (get_all ns_array (filter (\<lambda>i. i \<noteq> 0) (sort (map fst d)))) (\<lambda>ns_to_export.
            Inr (add_namespace_uri_els (self\<lparr>addr_idx_to_xml_idx := d\<rparr>) ns_to_export))))"

subsection \<open>String helpers of Python\<close>

fun str_nat :: "nat \<Rightarrow> string" where
  "str_nat n =
     (if n < 10 then [''0123456789'' ! n] else str_nat (n div 10) @ [''0123456789'' ! (n mod 10)])"

declare str_nat.simps [simp del]

text \<open>\<open>str(i)\<close> for an integer.\<close>

definition str_int :: "int \<Rightarrow> string" where
  "str_int i = (if i < 0 then CHR ''-'' # str_nat (nat (- i)) else str_nat (nat i))"

text \<open>\<open>sep.join(xs)\<close>.\<close>

fun join :: "string \<Rightarrow> string list \<Rightarrow> string" where
  "join sep [] = []"
| "join sep [x] = x"
| "join sep (x # y # ys) = x @ sep @ join sep (y # ys)"

text \<open>\<open>s.startswith(p)\<close>.\<close>

definition startswith :: "string \<Rightarrow> string \<Rightarrow> bool" where
  "startswith s p = (take (length p) s = p)"

text \<open>Truth value of a Python object: \<open>None\<close>, \<open>False\<close>, zero and empty sequences are
  false.\<close>

fun truthy :: "uaval \<Rightarrow> bool" where
  "truthy VNone = False"
| "truthy (VBool b) = b"
| "truthy (VInt i) = (i \<noteq> 0)"
| "truthy (VStr s) = (s \<noteq> [])"
| "truthy (VBytes bs) = (bs \<noteq> [])"
| "truthy (VList vs) = (vs \<noteq> [])"
| "truthy (VNodeId n) = True"
| "truthy (VGuid g) = True"
| "truthy (VObj fs) = True"

subsection \<open>Base64 (Python's \<open>base64.b64encode\<close>, RFC 4648)\<close>

definition b64_alphabet :: string where
  "b64_alphabet = ''ABCDEFGHIJKLMNOPQRSTUVWXYZabcdefghijklmnopqrstuvwxyz0123456789+/''"

definition b64_char :: "nat \<Rightarrow> char" where
  "b64_char i = b64_alphabet ! i"

text \<open>The encoder, three bytes to four characters, padded with \<open>=\<close>; the result is
  ASCII, so it is given as the string that \<open>data.decode("utf-8")\<close> returns.\<close>

fun b64encode :: "bytes \<Rightarrow> string" where
  "b64encode [] = []"
| "b64encode [a] =
     [b64_char (unat a div 4), b64_char (unat a mod 4 * 16), CHR ''='', CHR ''='']"
| "b64encode [a, b] =
     [b64_char (unat a div 4), b64_char (unat a mod 4 * 16 + unat b div 16),
      b64_char (unat b mod 16 * 4), CHR ''='']"
| "b64encode (a # b # c # rest) =
     [b64_char (unat a div 4), b64_char (unat a mod 4 * 16 + unat b div 16),
      b64_char (unat b mod 16 * 4 + unat c div 64), b64_char (unat c mod 64)]
     @ b64encode rest"

definition b64_index :: "char \<Rightarrow> nat option" where
  "b64_index c = (if c \<in> set b64_alphabet then Some (list_index b64_alphabet c) else None)"

text \<open>The standard decoder, four characters to three bytes; \<open>None\<close> for a text that
  is not a padded base64 text.\<close>

fun b64decode :: "string \<Rightarrow> bytes option" where
  "b64decode [] = Some []"
| "b64decode (c1 # c2 # c3 # c4 # rest) =
     (case (b64_index c1, b64_index c2) of
        (Some s1, Some s2) \<Rightarrow>
          (if rest = [] \<and> c3 = CHR ''='' \<and> c4 = CHR ''=''
           then Some [of_nat (s1 * 4 + s2 div 16)]
           else (case b64_index c3 of
                   None \<Rightarrow> None
                 | Some s3 \<Rightarrow>
                     (if rest = [] \<and> c4 = CHR ''=''
                      then Some [of_nat (s1 * 4 + s2 div 16), of_nat (s2 mod 16 * 16 + s3 div 4)]
                      else (case (b64_index c4, b64decode rest) of
                              (Some s4, Some bs) \<Rightarrow>
                                Some (of_nat (s1 * 4 + s2 div 16)
                                      # of_nat (s2 mod 16 * 16 + s3 div 4)
                                      # of_nat (s3 mod 4 * 64 + s4) # bs)
                            | _ \<Rightarrow> None))))
      | _ \<Rightarrow> None)"
| "b64decode _ = None"

subsection \<open>NodeId and QualifiedName strings\<close>

text \<open>\<open>_node_to_string\<close> and \<open>_bname_to_string\<close>, as functions of the value: the
  string form, with the namespace index replaced when it is a key of the index
  dictionary. (The callers that pass a Node pass its \<open>nodeid\<close> here.)\<close>

definition node_to_string :: "env \<Rightarrow> exporter \<Rightarrow> node_id \<Rightarrow> string" where
  "node_to_string E self nodeid' =
     (case map_of (addr_idx_to_xml_idx self) (NamespaceIndex nodeid') of
        Some i \<Rightarrow> to_string E (nodeid'\<lparr>NamespaceIndex := i\<rparr>)
      | None \<Rightarrow> to_string E nodeid')"

definition bname_to_string :: "env \<Rightarrow> exporter \<Rightarrow> qualified_name \<Rightarrow> string" where
  "bname_to_string E self bname =
     (case map_of (addr_idx_to_xml_idx self) (qn_NamespaceIndex bname) of
        Some i \<Rightarrow> qn_to_string E (bname\<lparr>qn_NamespaceIndex := i\<rparr>)
      | None \<Rightarrow> qn_to_string E bname)"

text \<open>
  The same two functions on a store of objects, to follow \<open>copy\<close> and the attribute
  assignment: an address is a position in the store, \<open>copy(x)\<close> allocates a new object
  at the end, and \<open>x.NamespaceIndex = i\<close> updates the object at the address of \<open>x\<close>.
  An address outside the store cannot occur in Python; the model gives IndexError.
\<close>

datatype pyobj = NodeIdObj node_id | QualifiedNameObj qualified_name | NodeObj nat

type_synonym store = "pyobj list"

definition copy_obj :: "store \<Rightarrow> nat \<Rightarrow> error + (nat \<times> store)" where
  "copy_obj h a = bindE (list_get h a) (\<lambda>obj. Inr (length h, h @ [obj]))"

definition set_NamespaceIndex :: "store \<Rightarrow> nat \<Rightarrow> nat \<Rightarrow> error + store" where
  "set_NamespaceIndex h a i =
     bindE (list_get h a) (\<lambda>obj.
       case obj of
         NodeIdObj n \<Rightarrow> Inr (h[a := NodeIdObj (n\<lparr>NamespaceIndex := i\<rparr>)])
       | QualifiedNameObj q \<Rightarrow> Inr (h[a := QualifiedNameObj (q\<lparr>qn_NamespaceIndex := i\<rparr>)])
       | NodeObj b \<Rightarrow> Inl AttributeError)"

definition get_NamespaceIndex :: "store \<Rightarrow> nat \<Rightarrow> error + nat" where
  "get_NamespaceIndex h a =
     bindE (list_get h a) (\<lambda>obj.
       case obj of
         NodeIdObj n \<Rightarrow> Inr (NamespaceIndex n)
       | QualifiedNameObj q \<Rightarrow> Inr (qn_NamespaceIndex q)
       | NodeObj b \<Rightarrow> Inl AttributeError)"

definition obj_to_string :: "env \<Rightarrow> store \<Rightarrow> nat \<Rightarrow> error + string" where
  "obj_to_string E h a =
     bindE (list_get h a) (\<lambda>obj.
       case obj of
         NodeIdObj n \<Rightarrow> Inr (to_string E n)
       | QualifiedNameObj q \<Rightarrow> Inr (qn_to_string E q)
       | NodeObj b \<Rightarrow> Inl AttributeError)"

text \<open>The common part of both: remap on a copy when the index is a key.\<close>

definition remapped_to_string :: "env \<Rightarrow> (nat \<times> nat) list \<Rightarrow> store \<Rightarrow> nat \<Rightarrow> error + (string \<times> store)" where
  "remapped_to_string E d h a =
     bindE (get_NamespaceIndex h a) (\<lambda>ns.
       case map_of d ns of
         Some i \<Rightarrow>
           bindE (copy_obj h a) (\<lambda>(a', h').
           bindE (set_NamespaceIndex h' a' i) (\<lambda>h''.
           bindE (obj_to_string E h'' a') (\<lambda>s. Inr (s, h''))))
       | None \<Rightarrow> bindE (obj_to_string E h a) (\<lambda>s. Inr (s, h)))"

definition node_to_string_st :: "env \<Rightarrow> (nat \<times> nat) list \<Rightarrow> store \<Rightarrow> nat \<Rightarrow> error + (string \<times> store)" where
  "node_to_string_st E d h a =
     bindE (list_get h a) (\<lambda>obj.
       case obj of
         NodeIdObj n \<Rightarrow> remapped_to_string E d h a
       | NodeObj b \<Rightarrow>
           bindE (list_get h b) (\<lambda>obj'.
             case obj' of
               NodeIdObj n \<Rightarrow> remapped_to_string E d h b
             | _ \<Rightarrow> Inl AttributeError)
       | QualifiedNameObj q \<Rightarrow> Inl AttributeError)"

definition bname_to_string_st :: "env \<Rightarrow> (nat \<times> nat) list \<Rightarrow> store \<Rightarrow> nat \<Rightarrow> error + (string \<times> store)" where
  "bname_to_string_st E d h a =
     bindE (list_get h a) (\<lambda>obj.
       case obj of
         QualifiedNameObj q \<Rightarrow> remapped_to_string E d h a
       | _ \<Rightarrow> Inl AttributeError)"

subsection \<open>Lookups in the tables\<close>

text \<open>\<open>getattr(ua.ObjectIds, name)\<close> (also written \<open>ua.ObjectIds.Name\<close>): AttributeError
  when the class has no such attribute.\<close>

definition getattr_ObjectIds :: "env \<Rightarrow> string \<Rightarrow> error + int" where
  "getattr_ObjectIds E name =
     (case ObjectIds E name of None \<Rightarrow> Inl AttributeError | Some n \<Rightarrow> Inr n)"

text \<open>\<open>ident in ObjectIdNames\<close> and \<open>ObjectIdNames[ident]\<close>: the keys of the table are
  integers, so an identifier of another kind is not a key.\<close>

definition lookup_name :: "env \<Rightarrow> node_identifier \<Rightarrow> string option" where
  "lookup_name E ident = (case ident of Numeric n \<Rightarrow> ObjectIdNames E n | _ \<Rightarrow> None)"

definition getitem_ObjectIdNames :: "env \<Rightarrow> node_identifier \<Rightarrow> error + string" where
  "getitem_ObjectIdNames E ident =
     (case lookup_name E ident of None \<Rightarrow> Inl KeyError | Some name \<Rightarrow> Inr name)"

text \<open>\<open>dtype.NamespaceIndex == 0 and dtype.Identifier <= 21\<close>; comparing an
  identifier that is not a number with 21 raises TypeError.\<close>

definition is_builtin :: "node_id \<Rightarrow> error + bool" where
  "is_builtin dtype =
     (if NamespaceIndex dtype = 0
      then (case Identifier dtype of Numeric n \<Rightarrow> Inr (n \<le> 21) | _ \<Rightarrow> Inl TypeError)
      else Inr False)"

subsection \<open>Aliases\<close>

text \<open>\<open>self.aliases[nodeid] = name\<close>: a dictionary keeps the position of a key that is
  already present, and appends a new key.\<close>

definition set_alias :: "node_id \<Rightarrow> string \<Rightarrow> exporter \<Rightarrow> exporter" where
  "set_alias nodeid' name self = self\<lparr>aliases := AList.update nodeid' name (aliases self)\<rparr>"

text \<open>\<open>ordered_keys.sort()\<close> compares NodeIds with \<open>NodeId.__lt__\<close>, which is not part
  of this file: the order is the parameter \<open>lt\<close>. The sort is stable.\<close>

fun insort_lt :: "('a \<Rightarrow> 'a \<Rightarrow> bool) \<Rightarrow> 'a \<Rightarrow> 'a list \<Rightarrow> 'a list" where
  "insort_lt lt x [] = [x]"
| "insort_lt lt x (y # ys) = (if lt x y then x # y # ys else y # insort_lt lt x ys)"

fun sort_lt_loop :: "('a \<Rightarrow> 'a \<Rightarrow> bool) \<Rightarrow> 'a list \<Rightarrow> 'a list \<Rightarrow> 'a list" where
  "sort_lt_loop lt acc [] = acc"
| "sort_lt_loop lt acc (x # xs) = sort_lt_loop lt (insort_lt lt x acc) xs"

definition sort_lt :: "('a \<Rightarrow> 'a \<Rightarrow> bool) \<Rightarrow> 'a list \<Rightarrow> 'a list" where
  "sort_lt lt xs = sort_lt_loop lt [] xs"

fun alias_els :: "env \<Rightarrow> (node_id \<times> string) list \<Rightarrow> etree \<Rightarrow> node_id list \<Rightarrow> error + etree" where
  "alias_els E al aliases_el [] = Inr aliases_el"
| "alias_els E al aliases_el (nodeid' # ks) =
     (case map_of al nodeid' of
        None \<Rightarrow> Inl KeyError
      | Some name \<Rightarrow>
          alias_els E al
            (append_child aliases_el
               (Element ''Alias'' [(''Alias'', name)] (Some (to_string E nodeid')) []))
            ks)"

definition add_alias_els :: "env \<Rightarrow> (node_id \<Rightarrow> node_id \<Rightarrow> bool) \<Rightarrow> exporter \<Rightarrow> error + exporter" where
  "add_alias_els E lt self =
     bindE (alias_els E (aliases self) (Element ''Aliases'' [] None [])
              (sort_lt lt (map fst (aliases self)))) (\<lambda>aliases_el.
       Inr (self\<lparr>etree_root := insert_child 1 aliases_el (etree_root self)\<rparr>))"

subsection \<open>References\<close>

definition ref_name_of :: "env \<Rightarrow> reference \<Rightarrow> string" where
  "ref_name_of E ref =
     (case lookup_name E (Identifier (ReferenceTypeId ref)) of
        Some name \<Rightarrow> name
      | None \<Rightarrow> to_string E (ReferenceTypeId ref))"

definition ref_el_of :: "env \<Rightarrow> exporter \<Rightarrow> reference \<Rightarrow> etree" where
  "ref_el_of E self ref =
     (let ref_el = set_attrib ''ReferenceType'' (ref_name_of E ref) (Element ''Reference'' [] None []);
          ref_el = (if \<not> IsForward ref then set_attrib ''IsForward'' ''false'' ref_el else ref_el)
      in set_text (Some (node_to_string E self (NodeId ref))) ref_el)"

text \<open>The loop of \<open>_add_ref_els\<close>: one Reference element per reference, and the alias
  assignment at the end of each round.\<close>

fun add_ref_loop :: "env \<Rightarrow> exporter \<Rightarrow> etree \<Rightarrow> reference list \<Rightarrow> exporter \<times> etree" where
  "add_ref_loop E self refs_el [] = (self, refs_el)"
| "add_ref_loop E self refs_el (ref # refs) =
     add_ref_loop E (set_alias (ReferenceTypeId ref) (ref_name_of E ref) self)
       (append_child refs_el (ref_el_of E self ref)) refs"

definition add_ref_els :: "env \<Rightarrow> exporter \<Rightarrow> etree \<Rightarrow> node \<Rightarrow> error + (exporter \<times> etree)" where
  "add_ref_els E self parent_el obj =
     bindE (get_references obj) (\<lambda>refs.
       let (self', refs_el) = add_ref_loop E self (Element ''References'' [] None []) refs
       in Inr (self', append_child parent_el refs_el))"

subsection \<open>Nodes\<close>

text \<open>\<open>_add_node_common\<close> returns the element of the node; the model adds it to the
  root when the node is finished.\<close>

definition add_node_common :: "env \<Rightarrow> exporter \<Rightarrow> string \<Rightarrow> node \<Rightarrow> error + etree" where
  "add_node_common E self nodetype n =
     bindE (read_browse_name n) (\<lambda>browsename.
     bindE (get_parent n) (\<lambda>parent.
     bindE (read_display_name n) (\<lambda>displayname.
     bindE (read_description n) (\<lambda>desc.
       let desc = (case desc of None \<Rightarrow> None | Some t \<Rightarrow> t);
           node_el = Element nodetype [] None [];
           node_el = set_attrib ''NodeId'' (node_to_string E self (nodeid n)) node_el;
           node_el = set_attrib ''BrowseName'' (bname_to_string E self browsename) node_el
       in bindE (case parent of
                   None \<Rightarrow> Inr node_el
                 | Some p \<Rightarrow>
                     bindE (read_node_class n) (\<lambda>node_class.
                       Inr (if node_class \<in> {Object, Variable, Method}
                            then set_attrib ''ParentNodeId'' (node_to_string E self p) node_el
                            else node_el))) (\<lambda>node_el.
            let node_el = add_sub_el node_el ''DisplayName'' displayname
            in Inr (if desc \<noteq> None \<and> desc \<noteq> Some []
                    then add_sub_el node_el ''Description'' desc else node_el))))))"

definition structure_field_el :: "env \<Rightarrow> structure_field \<Rightarrow> etree" where
  "structure_field_el E field =
     (let field_el = set_attrib ''Name'' (sf_Name field) (Element ''Field'' [] None []);
          field_el = set_attrib ''Datatype'' (to_string E (sf_DataType field)) field_el;
          field_el = (if sf_ValueRank field \<noteq> - 1
                      then set_attrib ''ValueRank'' (str_int (sf_ValueRank field)) field_el
                      else field_el);
          field_el = (if sf_ArrayDimensions field \<noteq> []
                      then set_attrib ''ArrayDimensions''
                             (join '', '' (map str_int (sf_ArrayDimensions field))) field_el
                      else field_el)
      in if sf_IsOptional field then set_attrib ''IsOptional'' ''true'' field_el else field_el)"

fun structure_fields_to_etree :: "env \<Rightarrow> etree \<Rightarrow> structure_field list \<Rightarrow> etree" where
  "structure_fields_to_etree E sdef_el [] = sdef_el"
| "structure_fields_to_etree E sdef_el (field # flds) =
     structure_fields_to_etree E (append_child sdef_el (structure_field_el E field)) flds"

definition enum_field_el :: "enum_field \<Rightarrow> etree" where
  "enum_field_el field =
     set_attrib ''Value'' (str_int (ef_Value field))
       (set_attrib ''Name'' (ef_Name field) (Element ''Field'' [] None []))"

fun enum_fields_to_etree :: "etree \<Rightarrow> enum_field list \<Rightarrow> etree" where
  "enum_fields_to_etree sdef_el [] = sdef_el"
| "enum_fields_to_etree sdef_el (field # flds) =
     enum_fields_to_etree (append_child sdef_el (enum_field_el field)) flds"

text \<open>\<open>add_etree_datatype\<close>; the browse name is read a second time for the name of the
  Definition, and an unknown kind of definition leaves the Definition element empty.\<close>

definition add_etree_datatype :: "env \<Rightarrow> exporter \<Rightarrow> node \<Rightarrow> error + exporter" where
  "add_etree_datatype E self obj =
     bindE (add_node_common E self ''UADataType'' obj) (\<lambda>obj_el.
     bindE (read_data_type_definition obj) (\<lambda>sdef.
     bindE (case sdef of
              None \<Rightarrow> Inr obj_el
            | Some d \<Rightarrow>
                bindE (read_browse_name obj) (\<lambda>bname.
                  let sdef_el = set_attrib ''Name'' (qn_Name bname) (Element ''Definition'' [] None [])
                  in Inr (append_child obj_el
                       (case d of
                          StructureDefinition flds \<Rightarrow> structure_fields_to_etree E sdef_el flds
                        | EnumDefinition flds \<Rightarrow> enum_fields_to_etree sdef_el flds
                        | UnknownDefinition \<Rightarrow> sdef_el)))) (\<lambda>obj_el.
     bindE (add_ref_els E self obj_el obj) (\<lambda>(self', obj_el).
       Inr (self'\<lparr>etree_root := append_child (etree_root self') obj_el\<rparr>)))))"

subsection \<open>Values\<close>

text \<open>The tests of \<open>_val_to_etree\<close> on the data type, in the order of the source; each
  reads an attribute of \<open>ua.ObjectIds\<close> only when the tests before it have failed.\<close>

datatype leaf_kind = NodeIdLeaf | GuidLeaf | BooleanLeaf | ByteStringLeaf | OtherLeaf

definition leaf_kind_of :: "env \<Rightarrow> node_id \<Rightarrow> error + leaf_kind" where
  "leaf_kind_of E dtype =
     bindE (getattr_ObjectIds E ''NodeId'') (\<lambda>n.
       if dtype = NodeId_of n then Inr NodeIdLeaf
       else bindE (getattr_ObjectIds E ''Guid'') (\<lambda>g.
         if dtype = NodeId_of g then Inr GuidLeaf
         else bindE (getattr_ObjectIds E ''Boolean'') (\<lambda>b.
           if dtype = NodeId_of b then Inr BooleanLeaf
           else bindE (getattr_ObjectIds E ''ByteString'') (\<lambda>s.
             if dtype = NodeId_of s then Inr ByteStringLeaf else Inr OtherLeaf))))"

text \<open>\<open>val.to_string()\<close> in the NodeId branch: of the values modelled here, a NodeId has
  the method.\<close>

definition val_to_string :: "env \<Rightarrow> uaval \<Rightarrow> error + string" where
  "val_to_string E val =
     (case val of VNodeId n \<Rightarrow> Inr (to_string E n) | _ \<Rightarrow> Inl AttributeError)"

text \<open>The ByteString branch: \<open>None\<close> stands for no bytes, and \<open>b64encode\<close> takes bytes
  only.\<close>

definition b64_text :: "uaval \<Rightarrow> error + string" where
  "b64_text val =
     (case val of
        VNone \<Rightarrow> Inr (b64encode [])
      | VBytes bs \<Rightarrow> Inr (b64encode bs)
      | _ \<Rightarrow> Inl TypeError)"

text \<open>The result type of the part of \<open>_value_to_etree\<close> that resolves the base data
  type of a value that is not a list: the name and base type of a built-in leaf, or an
  extension object with the name to write it under.\<close>

datatype resolved = BuiltinLeaf string node_id | ExtObj string

definition resolve_base :: "env \<Rightarrow> string \<Rightarrow> node_id \<Rightarrow> error + resolved" where
  "resolve_base E type_name dtype =
     bindE (get_base_data_type E dtype) (\<lambda>dtype_base.
     bindE (getattr_ObjectIds E ''Enumeration'') (\<lambda>en.
     bindE (if dtype_base = NodeId_of en
            then bindE (getattr_ObjectIds E ''Int32'') (\<lambda>i32.
                 bindE (getitem_ObjectIdNames E (Identifier (NodeId_of i32))) (\<lambda>type_name.
                   Inr (NodeId_of i32, type_name)))
            else Inr (dtype_base, type_name)) (\<lambda>(dtype_base, type_name).
     bindE (is_builtin dtype_base) (\<lambda>b.
       if b then bindE (getitem_ObjectIdNames E (Identifier dtype_base)) (\<lambda>type_name.
                   Inr (BuiltinLeaf type_name dtype_base))
       else Inr (ExtObj type_name)))))"

text \<open>A \<open>for\<close> loop whose body can raise: the state goes through the elements in
  order, and the first exception ends the loop.\<close>

fun foldE :: "('s \<Rightarrow> 'a \<Rightarrow> 'e + 's) \<Rightarrow> 'a list \<Rightarrow> 's \<Rightarrow> 'e + 's" where
  "foldE f [] s = Inr s"
| "foldE f (x # xs) s = (case f s x of Inl e \<Rightarrow> Inl e | Inr s' \<Rightarrow> foldE f xs s')"

lemma foldE_cong [fundef_cong]:
  "xs = ys \<Longrightarrow> s = t \<Longrightarrow> (\<And>x s'. x \<in> set ys \<Longrightarrow> f s' x = g s' x) \<Longrightarrow> foldE f xs s = foldE g ys t"
  by (induction ys arbitrary: xs s t) (auto split: sum.splits)

text \<open>
  \<open>_value_to_etree\<close>, \<open>_val_to_etree\<close>, \<open>member_to_etree\<close> and \<open>_extobj_to_etree\<close>.
  Each takes the element it writes under and returns it updated.
\<close>

function value_to_etree' :: "env \<Rightarrow> etree \<Rightarrow> string \<Rightarrow> node_id \<Rightarrow> uaval \<Rightarrow> error + etree"
and val_to_etree :: "env \<Rightarrow> etree \<Rightarrow> node_id \<Rightarrow> uaval \<Rightarrow> error + etree"
and member_to_etree :: "env \<Rightarrow> etree \<Rightarrow> string \<Rightarrow> node_id \<Rightarrow> uaval \<Rightarrow> error + etree"
and extobj_to_etree :: "env \<Rightarrow> etree \<Rightarrow> string \<Rightarrow> node_id \<Rightarrow> uaval \<Rightarrow> error + etree"
where
  "value_to_etree' E el type_name dtype val =
     (case val of
        VNone \<Rightarrow> Inr el
      | VList vals \<Rightarrow>
          (case is_builtin dtype of
             Inl e \<Rightarrow> Inl e
           | Inr b \<Rightarrow>
               (case foldE (\<lambda>list_el nval. value_to_etree' E list_el type_name dtype nval) vals
                       (Element (if b then ''uax:ListOf'' @ type_name
                                 else ''uax:ListOfExtensionObject'') [] None []) of
                  Inl e \<Rightarrow> Inl e
                | Inr list_el \<Rightarrow> Inr (append_child el list_el)))
      | _ \<Rightarrow>
          (case resolve_base E type_name dtype of
             Inl e \<Rightarrow> Inl e
           | Inr (BuiltinLeaf type_name' dtype_base) \<Rightarrow>
               (case val_to_etree E (Element (''uax:'' @ type_name') [] None []) dtype_base val of
                  Inl e \<Rightarrow> Inl e
                | Inr val_el \<Rightarrow> Inr (append_child el val_el))
           | Inr (ExtObj type_name') \<Rightarrow> extobj_to_etree E el type_name' dtype val))"
| "val_to_etree E el dtype val =
     (case leaf_kind_of E dtype of
        Inl e \<Rightarrow> Inl e
      | Inr NodeIdLeaf \<Rightarrow>
          (case val_to_string E val of
             Inl e \<Rightarrow> Inl e
           | Inr s \<Rightarrow> Inr (add_sub_el el ''uax:Identifier'' (Some s)))
      | Inr GuidLeaf \<Rightarrow> Inr (add_sub_el el ''uax:String'' (Some (py_str E val)))
      | Inr BooleanLeaf \<Rightarrow> Inr (set_text (Some (if truthy val then ''true'' else ''false'')) el)
      | Inr ByteStringLeaf \<Rightarrow>
          (case b64_text val of Inl e \<Rightarrow> Inl e | Inr s \<Rightarrow> Inr (set_text (Some s) el))
      | Inr OtherLeaf \<Rightarrow>
          (case val of
             VObj ua_types \<Rightarrow>
               foldE (\<lambda>el' (name, vtype, v).
                        case getattr_ObjectIds E vtype of
                          Inl e \<Rightarrow> Inl e
                        | Inr n \<Rightarrow> member_to_etree E el' name (NodeId_of n) v)
                 ua_types el
           | VBytes bs \<Rightarrow>
               (case decode_utf8 E bs of Inl e \<Rightarrow> Inl e | Inr s \<Rightarrow> Inr (set_text (Some s) el))
           | VNone \<Rightarrow> Inr el
           | _ \<Rightarrow> Inr (set_text (Some (py_str E val)) el)))"
| "member_to_etree E el name dtype val =
     (case (case val of
              VList vals \<Rightarrow>
                foldE (\<lambda>member_el v.
                         case getitem_ObjectIdNames E (Identifier dtype) of
                           Inl e \<Rightarrow> Inl e
                         | Inr type_name \<Rightarrow> value_to_etree' E member_el type_name dtype v)
                  vals (Element (''uax:'' @ name) [] None [])
            | _ \<Rightarrow> val_to_etree E (Element (''uax:'' @ name) [] None []) dtype val) of
        Inl e \<Rightarrow> Inl e
      | Inr member_el \<Rightarrow> Inr (append_child el member_el))"
| "extobj_to_etree E val_el name dtype val =
     (case val of
        VObj ua_types \<Rightarrow>
          (case foldE (\<lambda>struct_el (name, vtype, v).
                         case getattr_ObjectIds E
                                (if startswith vtype ''ListOf'' then drop 6 vtype else vtype) of
                           Inl e \<Rightarrow> Inl e
                         | Inr n \<Rightarrow> member_to_etree E struct_el name (NodeId_of n) v)
                  ua_types (Element (''uax:'' @ name) [] None []) of
             Inl e \<Rightarrow> Inl e
           | Inr struct_el \<Rightarrow>
               Inr (append_child val_el
                      (Element ''uax:ExtensionObject'' [] None
                         [Element ''uax:TypeId'' [] None
                            [Element ''uax:Identifier'' [] (Some (to_string E dtype)) []],
                          Element ''uax:Body'' [] None [struct_el]])))
      | _ \<Rightarrow> Inl AttributeError)"
  by pat_completeness auto

termination
proof -
  have in_list: "size x \<le> size_list size xs" if "x \<in> set xs" for x :: uaval and xs
    using that by (induction xs) auto
  have in_fields: "size v \<le> size_list (size_prod (\<lambda>x. 0) (size_prod (\<lambda>x. 0) size)) fs"
    if "(a, b, v) \<in> set fs" for v :: uaval and a b :: string and fs
    using that by (induction fs) auto
  show ?thesis
    by (relation "measure (\<lambda>x. case x of
            Inl (Inl (E, el, tn, d, v)) \<Rightarrow> 2 * size v + 1
          | Inl (Inr (E, el, d, v)) \<Rightarrow> 2 * size v
          | Inr (Inl (E, el, n, d, v)) \<Rightarrow> 2 * size v + 1
          | Inr (Inr (E, el, n, d, v)) \<Rightarrow> 2 * size v)")
       (auto dest!: in_list in_fields)
qed

declare value_to_etree'.simps [simp del] val_to_etree.simps [simp del]
  member_to_etree.simps [simp del] extobj_to_etree.simps [simp del]

text \<open>\<open>value_to_etree\<close>: the Value child of a variable, when the value is not \<open>None\<close>.\<close>

definition value_to_etree :: "env \<Rightarrow> etree \<Rightarrow> string \<Rightarrow> node_id \<Rightarrow> node \<Rightarrow> error + etree" where
  "value_to_etree E el dtype_name dtype n =
     bindE (read_data_value n) (\<lambda>var.
       if var \<noteq> VNone
       then bindE (value_to_etree' E (Element ''Value'' [] None []) dtype_name dtype var) (\<lambda>val_el.
              Inr (append_child el val_el))
       else Inr el)"

definition add_variable_common :: "env \<Rightarrow> exporter \<Rightarrow> node \<Rightarrow> etree \<Rightarrow> error + (exporter \<times> etree)" where
  "add_variable_common E self n el =
     bindE (read_data_type n) (\<lambda>dtype.
       let known = (if NamespaceIndex dtype = 0 then lookup_name E (Identifier dtype) else None);
           dtype_name = (case known of Some name \<Rightarrow> name | None \<Rightarrow> node_to_string E self dtype);
           self = (case known of Some name \<Rightarrow> set_alias dtype name self | None \<Rightarrow> self)
       in bindE (read_value_rank n) (\<lambda>rank.
          let el = (if rank \<noteq> - 1 then set_attrib ''ValueRank'' (str_int rank) el else el)
          in bindE (read_array_dimensions n) (\<lambda>dim.
             let el = (case dim of
                         None \<Rightarrow> el
                       | Some ds \<Rightarrow>
                           if ds \<noteq> [] then set_attrib ''ArrayDimensions'' (join '','' (map str_int ds)) el
                           else el);
                 el = set_attrib ''DataType'' dtype_name el
             in bindE (value_to_etree E el dtype_name dtype n) (\<lambda>el. Inr (self, el)))))"

subsection \<open>Construction\<close>

text \<open>\<open>__init__\<close>: no aliases, an empty index dictionary, and the root element with its
  four namespace attributes.\<close>

definition init_exporter :: exporter where
  "init_exporter =
     \<lparr>aliases = [],
      addr_idx_to_xml_idx = [],
      etree_root = Element ''UANodeSet''
        [(''xmlns:xsi'', ''http://www.w3.org/2001/XMLSchema-instance''),
         (''xmlns:uax'', ''http://opcfoundation.org/UA/2008/02/Types.xsd''),
         (''xmlns:xsd'', ''http://www.w3.org/2001/XMLSchema''),
         (''xmlns'', ''http://opcfoundation.org/UA/2011/03/UANodeSet.xsd'')] None []\<rparr>"

section \<open>Notions used in the statements\<close>

text \<open>The reads that \<open>_get_ns_idxs_of_nodes\<close> makes on a node succeed.\<close>

definition reads_ok :: "node \<Rightarrow> bool" where
  "reads_ok n = (\<not> isl (read_browse_name n) \<and> \<not> isl (get_references n))"

text \<open>The namespace indices the code collects from one node: of its NodeId, of its
  browse name and of the target NodeId of each reference.\<close>

definition node_idx_set :: "node \<Rightarrow> nat set" where
  "node_idx_set n =
     (case (read_browse_name n, get_references n) of
        (Inr bname, Inr refs) \<Rightarrow>
          {NamespaceIndex (nodeid n), qn_NamespaceIndex bname}
          \<union> (\<lambda>ref. NamespaceIndex (NodeId ref)) ` set refs
      | _ \<Rightarrow> {})"

text \<open>The set as the specification words it, with the reference-type ids as well.\<close>

definition spec_node_idx_set :: "node \<Rightarrow> nat set" where
  "spec_node_idx_set n =
     (case (read_browse_name n, get_references n) of
        (Inr bname, Inr refs) \<Rightarrow>
          {NamespaceIndex (nodeid n), qn_NamespaceIndex bname}
          \<union> (\<lambda>ref. NamespaceIndex (ReferenceTypeId ref)) ` set refs
          \<union> (\<lambda>ref. NamespaceIndex (NodeId ref)) ` set refs
      | _ \<Rightarrow> {})"

text \<open>A sequence of alias registrations, each an assignment \<open>self.aliases[k] = v\<close>, in
  order.\<close>

definition register_all :: "(node_id \<times> string) list \<Rightarrow> exporter \<Rightarrow> exporter" where
  "register_all regs self = fold (\<lambda>(k, v). set_alias k v) regs self"

text \<open>The Alias element that \<open>_add_alias_els\<close> writes for a key of the dictionary.\<close>

definition alias_el :: "env \<Rightarrow> (node_id \<times> string) list \<Rightarrow> node_id \<Rightarrow> etree" where
  "alias_el E al k =
     Element ''Alias'' [(''Alias'', the (map_of al k))] (Some (to_string E k)) []"

text \<open>What \<open>_value_to_etree\<close> adds for a value: the children it appends to an element
  that had none.\<close>

definition encoded_children :: "env \<Rightarrow> string \<Rightarrow> node_id \<Rightarrow> uaval \<Rightarrow> error + etree list" where
  "encoded_children E type_name dtype val =
     bindE (value_to_etree' E (Element ''Value'' [] None []) type_name dtype val) (\<lambda>el.
       Inr (children el))"

section \<open>Example inputs\<close>

text \<open>Modelled from the spec: the string forms of NodeId and QualifiedName
  (\<open>NodeId.to_string\<close>, \<open>QualifiedName.to_string\<close> of \<open>asyncua.ua\<close>, not part of this
  file), the canonical textual encoding with a namespace-index prefix and a body that
  depends on the kind of identifier. The theorems hold for every string form; this one
  is used on the example inputs.\<close>

definition example_to_string :: "node_id \<Rightarrow> string" where
  "example_to_string n =
     (if NamespaceIndex n \<noteq> 0 then ''ns='' @ str_nat (NamespaceIndex n) @ '';'' else [])
     @ (case Identifier n of
          Numeric i \<Rightarrow> ''i='' @ str_int i
        | StringId s \<Rightarrow> ''s='' @ s
        | GuidId g \<Rightarrow> ''g='' @ g
        | OpaqueId b \<Rightarrow> ''b='' @ b64encode b)"

definition example_qn_to_string :: "qualified_name \<Rightarrow> string" where
  "example_qn_to_string q = str_nat (qn_NamespaceIndex q) @ '':'' @ qn_Name q"

definition example_str :: "uaval \<Rightarrow> string" where
  "example_str v =
     (case v of
        VInt i \<Rightarrow> str_int i
      | VStr s \<Rightarrow> s
      | VBool b \<Rightarrow> (if b then ''True'' else ''False'')
      | VGuid g \<Rightarrow> g
      | VNone \<Rightarrow> ''None''
      | _ \<Rightarrow> ''<object>'')"

text \<open>An environment with an excerpt of the standard tables of node ids, a server
  with three namespaces, and Argument as a subtype of Structure.\<close>

definition example_ids :: "(string \<times> int) list" where
  "example_ids =
     [(''Boolean'', 1), (''Byte'', 3), (''Int32'', 6), (''UInt32'', 7), (''String'', 12),
      (''Guid'', 14), (''ByteString'', 15), (''NodeId'', 17), (''LocalizedText'', 21),
      (''Structure'', 22), (''Enumeration'', 29), (''Organizes'', 35),
      (''HasTypeDefinition'', 40), (''HasSubtype'', 45), (''HasComponent'', 47),
      (''Argument'', 296)]"

definition example_env :: env where
  "example_env =
     \<lparr>ObjectIds = map_of example_ids,
      ObjectIdNames = map_of (map (\<lambda>(name, n). (n, name)) example_ids),
      to_string = example_to_string,
      qn_to_string = example_qn_to_string,
      py_str = example_str,
      decode_utf8 = (\<lambda>bs. Inr (map (\<lambda>b. char_of (unat b)) bs)),
      get_namespace_array = Inr [''http://opcfoundation.org/UA/'', ''urn:plant:a'', ''urn:plant:b''],
      get_base_data_type = (\<lambda>d. Inr (if d = NodeId_of 296 then NodeId_of 22 else d))\<rparr>"

text \<open>A node in namespace 2 with two references, and one in namespace 0 whose only
  reference has its type in namespace 3.\<close>

definition example_node :: node where
  "example_node =
     \<lparr>nodeid = \<lparr>Identifier = Numeric 1001, NamespaceIndex = 2\<rparr>,
      read_node_class = Inr Object,
      read_browse_name = Inr \<lparr>qn_Name = ''Pump'', qn_NamespaceIndex = 2\<rparr>,
      read_display_name = Inr (Some ''Pump''),
      read_description = Inr None,
      get_parent = Inr None,
      get_references = Inr
        [\<lparr>ReferenceTypeId = NodeId_of 40, IsForward = True,
          NodeId = \<lparr>Identifier = Numeric 58, NamespaceIndex = 0\<rparr>\<rparr>,
         \<lparr>ReferenceTypeId = NodeId_of 47, IsForward = False,
          NodeId = \<lparr>Identifier = StringId ''Line'', NamespaceIndex = 1\<rparr>\<rparr>],
      read_data_type_definition = Inr None,
      read_data_type = Inr (NodeId_of 6),
      read_value_rank = Inr (- 1),
      read_array_dimensions = Inr None,
      read_data_value = Inr VNone\<rparr>"

definition example_node0 :: node where
  "example_node0 =
     example_node
       \<lparr>nodeid := \<lparr>Identifier = Numeric 85, NamespaceIndex = 0\<rparr>,
        read_browse_name := Inr \<lparr>qn_Name = ''Objects'', qn_NamespaceIndex = 0\<rparr>,
        get_references := Inr
          [\<lparr>ReferenceTypeId = \<lparr>Identifier = Numeric 5001, NamespaceIndex = 3\<rparr>,
            IsForward = True,
            NodeId = \<lparr>Identifier = Numeric 84, NamespaceIndex = 0\<rparr>\<rparr>]\<rparr>"

text \<open>A store with a NodeId, a QualifiedName and a Node that refers to the NodeId.\<close>

definition example_store :: store where
  "example_store =
     [NodeIdObj \<lparr>Identifier = Numeric 1001, NamespaceIndex = 2\<rparr>,
      QualifiedNameObj \<lparr>qn_Name = ''Pump'', qn_NamespaceIndex = 5\<rparr>,
      NodeObj 0]"

text \<open>Modelled from the spec: the order of NodeIds (\<open>NodeId.__lt__\<close> of \<open>asyncua.ua\<close>, not
  part of this file), lexicographic on the namespace index and then the identifier;
  this one compares numeric identifiers and is used on the example inputs.\<close>

definition example_lt :: "node_id \<Rightarrow> node_id \<Rightarrow> bool" where
  "example_lt a b =
     (let num = (\<lambda>n. case Identifier n of Numeric i \<Rightarrow> i | _ \<Rightarrow> 0)
      in NamespaceIndex a < NamespaceIndex b
         \<or> (NamespaceIndex a = NamespaceIndex b \<and> num a < num b))"

definition example_regs :: "(node_id \<times> string) list" where
  "example_regs =
     [(NodeId_of 47, ''HasComponent''), (NodeId_of 6, ''Int32''), (NodeId_of 47, ''HasComponent'')]"

text \<open>A DataType node whose structure definition has the fields Name (a String) and
  Value (an Int32, optional).\<close>

definition example_datatype_node :: node where
  "example_datatype_node =
     example_node
       \<lparr>nodeid := \<lparr>Identifier = Numeric 3001, NamespaceIndex = 2\<rparr>,
        read_node_class := Inr DataType,
        read_browse_name := Inr \<lparr>qn_Name = ''MyStruct'', qn_NamespaceIndex = 2\<rparr>,
        read_display_name := Inr (Some ''MyStruct''),
        get_references := Inr
          [\<lparr>ReferenceTypeId = NodeId_of 45, IsForward = False, NodeId = NodeId_of 22\<rparr>],
        read_data_type_definition := Inr (Some (StructureDefinition
          [\<lparr>sf_Name = ''Name'', sf_DataType = NodeId_of 12, sf_ValueRank = - 1,
            sf_ArrayDimensions = [], sf_IsOptional = False\<rparr>,
           \<lparr>sf_Name = ''Value'', sf_DataType = NodeId_of 6, sf_ValueRank = - 1,
            sf_ArrayDimensions = [], sf_IsOptional = True\<rparr>]))\<rparr>"



text \<open>A value of the standard Argument type, with its members in declared order and
  no name; its description is a LocalizedText.\<close>

definition example_argument :: uaval where
  "example_argument =
     VObj [(''Name'', ''String'', VNone),
           (''DataType'', ''NodeId'', VNodeId (NodeId_of 6)),
           (''ValueRank'', ''Int32'', VInt (- 1)),
           (''ArrayDimensions'', ''ListOfUInt32'', VList []),
           (''Description'', ''LocalizedText'',
              VObj [(''Encoding'', ''Byte'', VInt 2), (''Locale'', ''String'', VNone),
                    (''Text'', ''String'', VStr ''speed'')])]"

section \<open>Basic facts\<close>

lemma bindE_Inr [simp]: "bindE (Inr x) f = f x"
  by (simp add: bindE_def)

lemma bindE_Inl [simp]: "bindE (Inl e) f = Inl e"
  by (simp add: bindE_def)

lemma bindE_eq_Inr: "bindE m f = Inr y \<longleftrightarrow> (\<exists>x. m = Inr x \<and> f x = Inr y)"
  by (cases m) auto

section \<open>The namespace indices\<close>

lemma append_new_idxs_set:
  "set (append_new_idxs idxs is) = set idxs \<union> (set is - {0})"
  by (induction "is" arbitrary: idxs) auto

lemma append_new_idxs_distinct:
  "distinct idxs \<Longrightarrow> distinct (append_new_idxs idxs is)"
  by (induction "is" arbitrary: idxs) auto

lemma node_idxs_ok:
  "reads_ok n \<Longrightarrow> \<exists>is. node_idxs n = Inr is \<and> set is = node_idx_set n"
  by (cases "read_browse_name n"; cases "get_references n")
     (auto simp: reads_ok_def node_idxs_def node_idx_set_def)

lemma get_ns_idxs_loop_ok:
  "list_all reads_ok nodes \<Longrightarrow> distinct idxs \<Longrightarrow>
   \<exists>r. get_ns_idxs_loop idxs nodes = Inr r \<and> distinct r
       \<and> set r = set idxs \<union> (\<Union> (node_idx_set ` set nodes) - {0})"
proof (induction nodes arbitrary: idxs)
  case Nil
  then show ?case by simp
next
  case (Cons n nodes)
  from Cons.prems obtain js where js: "node_idxs n = Inr js" "set js = node_idx_set n"
    using node_idxs_ok by auto
  have "distinct (append_new_idxs idxs js)"
    using Cons.prems by (simp add: append_new_idxs_distinct)
  with Cons.IH [of "append_new_idxs idxs js"] Cons.prems
  obtain r where r: "get_ns_idxs_loop (append_new_idxs idxs js) nodes = Inr r" "distinct r"
    "set r = set (append_new_idxs idxs js) \<union> (\<Union> (node_idx_set ` set nodes) - {0})"
    by auto
  show ?case
    using r js by (auto simp: append_new_idxs_set)
qed

lemma make_idx_loop_keys:
  "fst ` set (make_idx_loop d k xs n) = fst ` set d \<union> set (takeWhile (\<lambda>a. a < n) xs)"
  by (induction xs arbitrary: d k) (auto simp: dom_update)

lemma takeWhile_sorted_less:
  "sorted xs \<Longrightarrow> set (takeWhile (\<lambda>a. a < n) xs) = {a \<in> set xs. a < (n::nat)}"
  by (induction xs) auto

lemma make_idx_dict_keys:
  "fst ` set (make_idx_dict idxs ns_array) = insert 0 {i \<in> set idxs. i < length ns_array}"
  by (simp add: make_idx_dict_def make_idx_loop_keys takeWhile_sorted_less)

lemma make_idx_loop_distinct:
  "distinct (map fst d) \<Longrightarrow> distinct (map fst (make_idx_loop d k xs n))"
  by (induction xs arbitrary: d k) (auto simp: distinct_update)

lemma get_all_ok:
  "\<forall>i\<in>set is. i < length xs \<Longrightarrow> \<exists>ys. get_all xs is = Inr ys"
  by (induction "is") (auto simp: list_get_def)

lemma list_index_less: "x \<in> set xs \<Longrightarrow> list_index xs x < length xs"
  by (induction xs) auto

lemma add_idxs_from_uris_set:
  "set (add_idxs_from_uris idxs uris ns_array) =
   set idxs \<union> list_index ns_array ` (set uris \<inter> set ns_array)"
  by (induction uris arbitrary: idxs) (auto simp: Let_def)

lemma add_idxs_from_uris_distinct:
  "distinct idxs \<Longrightarrow> distinct (add_idxs_from_uris idxs uris ns_array)"
  by (induction uris arbitrary: idxs) (auto simp: Let_def)

lemma get_ns_idxs_loop_nonzero:
  "get_ns_idxs_loop idxs nodes = Inr r \<Longrightarrow> 0 \<notin> set idxs \<Longrightarrow> 0 \<notin> set r"
  by (induction nodes arbitrary: idxs) (auto simp: append_new_idxs_set split: sum.splits)

lemma make_idx_loop_other:
  "a \<notin> set xs \<Longrightarrow> map_of (make_idx_loop d k xs n) a = map_of d a"
  by (induction xs arbitrary: d k) (auto simp: update_conv')

lemma make_idx_loop_nth:
  "\<forall>a\<in>set xs. a < n \<Longrightarrow> distinct xs \<Longrightarrow> j < length xs \<Longrightarrow>
   map_of (make_idx_loop d k xs n) (xs ! j) = Some (k + j + 1)"
proof (induction xs arbitrary: d k j)
  case Nil
  then show ?case by simp
next
  case (Cons x xs)
  show ?case
  proof (cases j)
    case 0
    with Cons.prems show ?thesis
      by (simp add: make_idx_loop_other update_conv')
  next
    case (Suc j')
    with Cons.prems Cons.IH [of j' "AList.update x (k + 1) d" "k + 1"] show ?thesis
      by simp
  qed
qed

lemma example_harvest: "get_ns_idxs_of_nodes [example_node, example_node0] = Inr [2, 1]"
  by (simp add: get_ns_idxs_of_nodes_def node_idxs_def example_node_def example_node0_def
      NodeId_of_def)

lemma example_idx_dict:
  "make_idx_dict [3, 1] [''u0'', ''u1'', ''u2'', ''u3''] = [(0, 0), (1, 1), (3, 2)]"
  by (simp add: make_idx_dict_def)

text \<open>
  Claim C2, amended. The code collects, for every node, the namespace index of its
  NodeId, of its browse name and of the target NodeId of every reference, and not the
  index of the reference-type id. When the reads succeed, harvesting returns a list
  without duplicates whose set is the union of those indices over all nodes, without 0.
\<close>

theorem get_ns_idxs_of_nodes_set:
  assumes "list_all reads_ok nodes"
  shows "\<exists>idxs. get_ns_idxs_of_nodes nodes = Inr idxs \<and> distinct idxs
           \<and> set idxs = \<Union> (node_idx_set ` set nodes) - {0}"
  using get_ns_idxs_loop_ok [OF assms, of "[]"] by (simp add: get_ns_idxs_of_nodes_def)

theorem get_ns_idxs_of_nodes_set_witness:
  "list_all reads_ok [example_node, example_node0]
   \<and> get_ns_idxs_of_nodes [example_node, example_node0] = Inr [2, 1]
   \<and> \<Union> (node_idx_set ` set [example_node, example_node0]) - {0} = set [2, 1]"
proof -
  have ok: "list_all reads_ok [example_node, example_node0]"
    by (simp add: reads_ok_def example_node_def example_node0_def)
  from get_ns_idxs_of_nodes_set [OF ok] obtain idxs
    where "get_ns_idxs_of_nodes [example_node, example_node0] = Inr idxs"
      and "set idxs = \<Union> (node_idx_set ` set [example_node, example_node0]) - {0}"
    by blast
  with example_harvest have "\<Union> (node_idx_set ` set [example_node, example_node0]) - {0} = set [2, 1]"
    by simp
  with ok example_harvest show ?thesis
    by (intro conjI)
qed

text \<open>The claim as stated fails: a reference type in namespace 3 is not harvested.\<close>

theorem get_ns_idxs_of_nodes_counterexample:
  "get_ns_idxs_of_nodes [example_node0] = Inr []
   \<and> \<Union> (spec_node_idx_set ` set [example_node0]) - {0} = {3}"
proof -
  have "get_ns_idxs_of_nodes [example_node0] = Inr []"
    by (simp add: get_ns_idxs_of_nodes_def node_idxs_def example_node_def example_node0_def)
  moreover have "\<Union> (spec_node_idx_set ` set [example_node0]) - {0} = {3}"
    by (auto simp: spec_node_idx_set_def example_node_def example_node0_def)
  ultimately show ?thesis by simp
qed

text \<open>
  Claim C9. When the nodes and the namespace array are read without error,
  \<open>_add_namespaces\<close> returns (it does not raise), and a harvested index is a key of the
  export index dictionary exactly when it is below the length of the namespace array:
  the indices beyond the table are left out and those within it are all mapped.
\<close>

theorem add_namespaces_drops_dangling:
  assumes "get_ns_idxs_of_nodes nodes = Inr idxs" and "get_namespace_array E = Inr ns_array"
  shows "\<exists>self'. add_namespaces E self nodes uris = Inr self' \<and>
           (\<forall>i\<in>set idxs. (i \<in> fst ` set (addr_idx_to_xml_idx self')) = (i < length ns_array))"
proof -
  define idxs' where "idxs' =
    (case uris of None \<Rightarrow> idxs
     | Some us \<Rightarrow> if us = [] then idxs else add_idxs_from_uris idxs us ns_array)"
  define d where "d = make_idx_dict idxs' ns_array"
  have nz: "0 \<notin> set idxs"
    using assms(1) get_ns_idxs_loop_nonzero [of "[]" nodes idxs]
    by (simp add: get_ns_idxs_of_nodes_def)
  have sub: "set idxs \<subseteq> set idxs'"
    by (auto simp: idxs'_def add_idxs_from_uris_set split: option.splits)
  have keys: "fst ` set d = insert 0 {i \<in> set idxs'. i < length ns_array}"
    by (simp add: d_def make_idx_dict_keys)
  have "\<forall>i\<in>set (filter (\<lambda>i. i \<noteq> 0) (sort (map fst d))). i < length ns_array"
    using keys by auto
  then obtain ns_to_export
    where ex: "get_all ns_array (filter (\<lambda>i. i \<noteq> 0) (sort (map fst d))) = Inr ns_to_export"
    using get_all_ok by blast
  have run: "add_namespaces E self nodes uris
      = Inr (add_namespace_uri_els (self\<lparr>addr_idx_to_xml_idx := d\<rparr>) ns_to_export)"
    using assms ex by (simp add: add_namespaces_def Let_def idxs'_def [symmetric] d_def [symmetric])
  have "\<forall>i\<in>set idxs. (i \<in> fst ` set d) = (i < length ns_array)"
    using keys nz sub by auto
  then show ?thesis
    unfolding run by (simp add: add_namespace_uri_els_def)
qed

theorem add_namespaces_drops_dangling_witness:
  "get_ns_idxs_of_nodes [example_node, example_node0] = Inr [2, 1]
   \<and> get_namespace_array (example_env\<lparr>get_namespace_array := Inr [''u0'', ''u1'']\<rparr>) = Inr [''u0'', ''u1'']
   \<and> (\<exists>self'. add_namespaces (example_env\<lparr>get_namespace_array := Inr [''u0'', ''u1'']\<rparr>)
          init_exporter [example_node, example_node0] None = Inr self'
        \<and> 1 \<in> fst ` set (addr_idx_to_xml_idx self')
        \<and> 2 \<notin> fst ` set (addr_idx_to_xml_idx self'))"
proof -
  let ?E = "example_env\<lparr>get_namespace_array := Inr [''u0'', ''u1'']\<rparr>"
  have ns: "get_namespace_array ?E = Inr [''u0'', ''u1'']"
    by simp
  from add_namespaces_drops_dangling [OF example_harvest ns, of init_exporter None]
  obtain self' where run: "add_namespaces ?E init_exporter [example_node, example_node0] None = Inr self'"
    and dom: "\<forall>i\<in>set [2, 1]. (i \<in> fst ` set (addr_idx_to_xml_idx self')) = (i < length [''u0'', ''u1''])"
    by blast
  from dom have "1 \<in> fst ` set (addr_idx_to_xml_idx self')" "2 \<notin> fst ` set (addr_idx_to_xml_idx self')"
    by simp_all
  with run have "\<exists>self'. add_namespaces ?E init_exporter [example_node, example_node0] None = Inr self'
        \<and> 1 \<in> fst ` set (addr_idx_to_xml_idx self')
        \<and> 2 \<notin> fst ` set (addr_idx_to_xml_idx self')"
    by (intro exI conjI)
  with example_harvest ns show ?thesis
    by (intro conjI)
qed

text \<open>
  Claim C4, amended. For a list of distinct, non-zero indices that all lie within the
  namespace table, the dictionary built by \<open>_make_idx_dict\<close> maps 0 to 0, has
  exactly 0 and the given indices as keys, is a bijection from them onto 0..N with N
  the number of indices, and assigns the export indices in ascending order of the
  source indices.
\<close>

theorem make_idx_dict_bijection:
  assumes "distinct idxs" and "0 \<notin> set idxs" and "\<forall>i\<in>set idxs. i < length ns_array"
  shows "map_of (make_idx_dict idxs ns_array) 0 = Some 0
       \<and> fst ` set (make_idx_dict idxs ns_array) = insert 0 (set idxs)
       \<and> bij_betw (\<lambda>i. the (map_of (make_idx_dict idxs ns_array) i))
            (insert 0 (set idxs)) {0..length idxs}
       \<and> (\<forall>i\<in>set idxs. \<forall>j\<in>set idxs. i < j \<longrightarrow>
            the (map_of (make_idx_dict idxs ns_array) i)
            < the (map_of (make_idx_dict idxs ns_array) j))"
proof -
  define xs where "xs = sort idxs"
  define f where "f = (\<lambda>i. the (map_of (make_idx_dict idxs ns_array) i))"
  have xs: "set xs = set idxs" "distinct xs" "sorted xs" "length xs = length idxs"
    using assms(1) by (simp_all add: xs_def)
  have zero: "map_of (make_idx_dict idxs ns_array) 0 = Some 0"
    using assms(2) by (simp add: make_idx_dict_def make_idx_loop_other)
  have nth: "map_of (make_idx_dict idxs ns_array) (xs ! j) = Some (j + 1)" if "j < length xs" for j
    using make_idx_loop_nth [of xs "length ns_array" j "[(0, 0)]" 0] that xs assms(3)
    by (simp add: make_idx_dict_def xs_def)
  have f0: "f 0 = 0" and fn: "\<And>j. j < length xs \<Longrightarrow> f (xs ! j) = j + 1"
    using zero nth by (simp_all add: f_def)
  have keys: "fst ` set (make_idx_dict idxs ns_array) = insert 0 (set idxs)"
    using assms(3) by (auto simp: make_idx_dict_keys)
  have inj: "inj_on f (insert 0 (set idxs))"
  proof (rule inj_onI)
    fix a b assume a: "a \<in> insert 0 (set idxs)" and b: "b \<in> insert 0 (set idxs)" and eq: "f a = f b"
    show "a = b"
    proof (cases "a = 0"; cases "b = 0")
      assume "a \<noteq> 0" "b \<noteq> 0"
      with a b xs obtain i j where "i < length xs" "a = xs ! i" "j < length xs" "b = xs ! j"
        by (metis in_set_conv_nth insertE)
      with eq fn show ?thesis by auto
    next
      assume "a = 0" "b \<noteq> 0"
      with b xs obtain j where "j < length xs" "b = xs ! j"
        by (metis in_set_conv_nth insertE)
      with eq fn f0 \<open>a = 0\<close> show ?thesis by auto
    next
      assume "a \<noteq> 0" "b = 0"
      with a xs obtain i where "i < length xs" "a = xs ! i"
        by (metis in_set_conv_nth insertE)
      with eq fn f0 \<open>b = 0\<close> show ?thesis by auto
    qed simp
  qed
  have img: "f ` (insert 0 (set idxs)) = {0..length idxs}"
  proof -
    have "f ` set xs = {1..length xs}"
    proof (intro set_eqI iffI)
      fix y assume "y \<in> f ` set xs"
      then obtain i where "i < length xs" "y = f (xs ! i)"
        by (auto simp: in_set_conv_nth)
      with fn show "y \<in> {1..length xs}" by auto
    next
      fix y assume "y \<in> {1..length xs}"
      then have "y - 1 < length xs" "f (xs ! (y - 1)) = y"
        using fn [of "y - 1"] by auto
      then show "y \<in> f ` set xs"
        by (metis imageI nth_mem)
    qed
    with f0 xs show ?thesis by auto
  qed
  have mono: "f a < f b" if "a \<in> set idxs" "b \<in> set idxs" "a < b" for a b
  proof -
    from that xs obtain i j where ij: "i < length xs" "a = xs ! i" "j < length xs" "b = xs ! j"
      by (metis in_set_conv_nth)
    have "i < j"
    proof (rule ccontr)
      assume "\<not> i < j"
      then have "j \<le> i" by simp
      with xs(3) ij have "xs ! j \<le> xs ! i" by (simp add: sorted_nth_mono)
      with that ij show False by simp
    qed
    with ij fn show ?thesis by simp
  qed
  show ?thesis
    using zero keys inj img mono unfolding bij_betw_def f_def by blast
qed

theorem make_idx_dict_bijection_witness:
  "distinct [3, 1 :: nat] \<and> 0 \<notin> set [3, 1 :: nat] \<and> 3 < length [''u0'', ''u1'', ''u2'', ''u3'']
   \<and> make_idx_dict [3, 1] [''u0'', ''u1'', ''u2'', ''u3''] = [(0, 0), (1, 1), (3, 2)]
   \<and> bij_betw (\<lambda>i. the (map_of (make_idx_dict [3, 1] [''u0'', ''u1'', ''u2'', ''u3'']) i))
        (insert 0 (set [3, 1])) {0..length [3, 1 :: nat]}"
proof -
  have h: "distinct [3, 1 :: nat]" "0 \<notin> set [3, 1 :: nat]"
    "\<forall>i\<in>set [3, 1 :: nat]. i < length [''u0'', ''u1'', ''u2'', ''u3'']"
    by simp_all
  note r = make_idx_dict_bijection [OF h]
  show ?thesis
  proof (intro conjI)
    show "bij_betw (\<lambda>i. the (map_of (make_idx_dict [3, 1] [''u0'', ''u1'', ''u2'', ''u3'']) i))
        (insert 0 (set [3, 1])) {0..length [3, 1 :: nat]}"
      by (rule r [THEN conjunct2, THEN conjunct2, THEN conjunct1])
    show "make_idx_dict [3, 1] [''u0'', ''u1'', ''u2'', ''u3''] = [(0, 0), (1, 1), (3, 2)]"
      by (rule example_idx_dict)
  qed simp_all
qed

text \<open>The claim as stated fails for an index beyond the namespace table: it gets no
  entry, so the keys are not the given indices.\<close>

theorem make_idx_dict_counterexample:
  "make_idx_dict [5] [''u0'', ''u1''] = [(0, 0)]
   \<and> fst ` set (make_idx_dict [5] [''u0'', ''u1'']) \<noteq> insert 0 (set [5])"
  by (simp add: make_idx_dict_def)

section \<open>NodeId and QualifiedName strings\<close>

lemma remapped_to_string_NodeId:
  assumes "a < length h" and "h ! a = NodeIdObj n"
  shows "remapped_to_string E d h a =
     (case map_of d (NamespaceIndex n) of
        None \<Rightarrow> Inr (to_string E n, h)
      | Some i \<Rightarrow> Inr (to_string E (n\<lparr>NamespaceIndex := i\<rparr>),
                      h @ [NodeIdObj (n\<lparr>NamespaceIndex := i\<rparr>)]))"
  using assms
  by (simp add: remapped_to_string_def get_NamespaceIndex_def copy_obj_def list_get_def
      set_NamespaceIndex_def obj_to_string_def nth_append split: option.splits)

lemma remapped_to_string_QualifiedName:
  assumes "a < length h" and "h ! a = QualifiedNameObj q"
  shows "remapped_to_string E d h a =
     (case map_of d (qn_NamespaceIndex q) of
        None \<Rightarrow> Inr (qn_to_string E q, h)
      | Some i \<Rightarrow> Inr (qn_to_string E (q\<lparr>qn_NamespaceIndex := i\<rparr>),
                      h @ [QualifiedNameObj (q\<lparr>qn_NamespaceIndex := i\<rparr>)]))"
  using assms
  by (simp add: remapped_to_string_def get_NamespaceIndex_def copy_obj_def list_get_def
      set_NamespaceIndex_def obj_to_string_def nth_append split: option.splits)

lemma node_to_string_st_value:
  assumes "a < length h" and "h ! a = NodeIdObj n" and "addr_idx_to_xml_idx self = d"
  shows "\<exists>h'. node_to_string_st E d h a = Inr (node_to_string E self n, h')"
  using assms
  by (auto simp: node_to_string_st_def list_get_def remapped_to_string_NodeId node_to_string_def
      split: option.splits)

text \<open>
  Claim C10. For a NodeId (and for a QualifiedName) in the store, \<open>_node_to_string\<close>
  (and \<open>_bname_to_string\<close>) returns a string and does not raise. When the namespace
  index is not a key of the export index dictionary, the string is the string form of
  the object as it is and the store is unchanged. When it is a key, the string is the
  string form with the index replaced, and the only change to the store is one new
  object, the copy: every object that existed before, the caller's included, is as it
  was.
\<close>

theorem to_string_keeps_caller_object:
  assumes "a < length h" and "h ! a = NodeIdObj n"
    and "b < length h" and "h ! b = QualifiedNameObj q"
  shows "(\<exists>s h'. node_to_string_st E d h a = Inr (s, h')
            \<and> (NamespaceIndex n \<notin> fst ` set d \<longrightarrow> s = to_string E n \<and> h' = h)
            \<and> (\<forall>i. map_of d (NamespaceIndex n) = Some i \<longrightarrow>
                  s = to_string E (n\<lparr>NamespaceIndex := i\<rparr>)
                  \<and> h' = h @ [NodeIdObj (n\<lparr>NamespaceIndex := i\<rparr>)])
            \<and> take (length h) h' = h)
       \<and> (\<exists>s h'. bname_to_string_st E d h b = Inr (s, h')
            \<and> (qn_NamespaceIndex q \<notin> fst ` set d \<longrightarrow> s = qn_to_string E q \<and> h' = h)
            \<and> (\<forall>i. map_of d (qn_NamespaceIndex q) = Some i \<longrightarrow>
                  s = qn_to_string E (q\<lparr>qn_NamespaceIndex := i\<rparr>)
                  \<and> h' = h @ [QualifiedNameObj (q\<lparr>qn_NamespaceIndex := i\<rparr>)])
            \<and> take (length h) h' = h)"
proof (intro conjI)
  show "\<exists>s h'. node_to_string_st E d h a = Inr (s, h')
            \<and> (NamespaceIndex n \<notin> fst ` set d \<longrightarrow> s = to_string E n \<and> h' = h)
            \<and> (\<forall>i. map_of d (NamespaceIndex n) = Some i \<longrightarrow>
                  s = to_string E (n\<lparr>NamespaceIndex := i\<rparr>)
                  \<and> h' = h @ [NodeIdObj (n\<lparr>NamespaceIndex := i\<rparr>)])
            \<and> take (length h) h' = h"
  proof (cases "map_of d (NamespaceIndex n)")
    case None
    then have "NamespaceIndex n \<notin> fst ` set d"
      by (simp add: map_of_eq_None_iff)
    with None assms(1,2) show ?thesis
      by (simp add: node_to_string_st_def list_get_def remapped_to_string_NodeId)
  next
    case (Some i)
    then have "NamespaceIndex n \<in> fst ` set d"
      by (metis map_of_eq_None_iff option.distinct(1))
    with Some assms(1,2) show ?thesis
      by (simp add: node_to_string_st_def list_get_def remapped_to_string_NodeId)
  qed
next
  show "\<exists>s h'. bname_to_string_st E d h b = Inr (s, h')
            \<and> (qn_NamespaceIndex q \<notin> fst ` set d \<longrightarrow> s = qn_to_string E q \<and> h' = h)
            \<and> (\<forall>i. map_of d (qn_NamespaceIndex q) = Some i \<longrightarrow>
                  s = qn_to_string E (q\<lparr>qn_NamespaceIndex := i\<rparr>)
                  \<and> h' = h @ [QualifiedNameObj (q\<lparr>qn_NamespaceIndex := i\<rparr>)])
            \<and> take (length h) h' = h"
  proof (cases "map_of d (qn_NamespaceIndex q)")
    case None
    then have "qn_NamespaceIndex q \<notin> fst ` set d"
      by (simp add: map_of_eq_None_iff)
    with None assms(3,4) show ?thesis
      by (simp add: bname_to_string_st_def list_get_def remapped_to_string_QualifiedName)
  next
    case (Some i)
    then have "qn_NamespaceIndex q \<in> fst ` set d"
      by (metis map_of_eq_None_iff option.distinct(1))
    with Some assms(3,4) show ?thesis
      by (simp add: bname_to_string_st_def list_get_def remapped_to_string_QualifiedName)
  qed
qed

theorem to_string_keeps_caller_object_witness:
  "0 < length example_store
   \<and> example_store ! 0 = NodeIdObj \<lparr>Identifier = Numeric 1001, NamespaceIndex = 2\<rparr>
   \<and> 1 < length example_store
   \<and> example_store ! 1 = QualifiedNameObj \<lparr>qn_Name = ''Pump'', qn_NamespaceIndex = 5\<rparr>
   \<and> node_to_string_st example_env [(0, 0), (2, 1)] example_store 0
       = Inr (''ns=1;i=1001'',
              example_store @ [NodeIdObj \<lparr>Identifier = Numeric 1001, NamespaceIndex = 1\<rparr>])
   \<and> bname_to_string_st example_env [(0, 0), (2, 1)] example_store 1
       = Inr (''5:Pump'', example_store)"
proof -
  have h: "0 < length example_store"
    "example_store ! 0 = NodeIdObj \<lparr>Identifier = Numeric 1001, NamespaceIndex = 2\<rparr>"
    "1 < length example_store"
    "example_store ! 1 = QualifiedNameObj \<lparr>qn_Name = ''Pump'', qn_NamespaceIndex = 5\<rparr>"
    by (simp_all add: example_store_def)
  have s1: "example_to_string \<lparr>Identifier = Numeric 1001, NamespaceIndex = 1\<rparr> = ''ns=1;i=1001''"
    by (simp add: example_to_string_def str_int_def str_nat.simps)
  have s2: "example_qn_to_string \<lparr>qn_Name = ''Pump'', qn_NamespaceIndex = 5\<rparr> = ''5:Pump''"
    by (simp add: example_qn_to_string_def str_nat.simps)
  from to_string_keeps_caller_object [OF h, of example_env "[(0, 0), (2, 1)]"] s1 s2 h
  show ?thesis
    by (auto simp: example_env_def)
qed

section \<open>Base64\<close>

lemma list_index_nth:
  "distinct xs \<Longrightarrow> i < length xs \<Longrightarrow> list_index xs (xs ! i) = i"
proof (induction xs arbitrary: i)
  case Nil
  then show ?case by simp
next
  case (Cons x xs)
  then show ?case
    by (cases i) auto
qed

lemma b64_alphabet_length: "length b64_alphabet = 64"
  by (simp add: b64_alphabet_def)

lemma b64_alphabet_distinct: "distinct b64_alphabet"
  by (simp add: b64_alphabet_def)

lemma b64_alphabet_no_pad: "CHR ''='' \<notin> set b64_alphabet"
  by (simp add: b64_alphabet_def)

lemma b64_index_char: "i < 64 \<Longrightarrow> b64_index (b64_char i) = Some i"
  by (simp add: b64_index_def b64_char_def list_index_nth b64_alphabet_distinct
      b64_alphabet_length)

lemma b64_char_no_pad: "i < 64 \<Longrightarrow> b64_char i \<noteq> CHR ''=''"
proof -
  assume "i < 64"
  then have "b64_alphabet ! i \<in> set b64_alphabet"
    by (simp add: b64_alphabet_length)
  with b64_alphabet_no_pad show ?thesis
    unfolding b64_char_def by metis
qed

lemma unat_byte: "unat (a :: 8 word) < 256"
proof -
  have "unat a < 2 ^ LENGTH(8)"
    by (rule unsigned_less)
  then show ?thesis by simp
qed

lemma sextet_bounds:
  fixes a b :: nat
  assumes "a < 256" and "b < 256"
  shows "a div 4 < 64" "a mod 4 * 16 < 64" "a mod 4 * 16 + b div 16 < 64"
    "b mod 16 * 4 < 64" "b mod 16 * 4 + a div 64 < 64" "a mod 64 < 64"
  using assms by simp_all

lemma div_add_small: "x < n \<Longrightarrow> (m * n + x) div n = (m::nat)"
  by simp

lemma mod_add_small: "x < n \<Longrightarrow> (m * n + x) mod n = (x::nat)"
  by simp

lemma sextet_join:
  fixes a b c :: nat
  assumes "a < 256" and "b < 256"
  shows "a div 4 * 4 + (a mod 4 * 16 + b div 16) div 16 = a"
    and "a div 4 * 4 + (a mod 4 * 16) div 16 = a"
    and "(c mod 4 * 16 + a div 16) mod 16 * 16 + (a mod 16 * 4 + b div 64) div 4 = a"
    and "(c mod 4 * 16 + a div 16) mod 16 * 16 + (a mod 16 * 4) div 4 = a"
    and "(c mod 16 * 4 + a div 64) mod 4 * 64 + a mod 64 = a"
proof -
  have a16: "a div 16 < 16" and a64: "a div 64 < 4" and b16: "b div 16 < 16" and b64: "b div 64 < 4"
    using assms by simp_all
  have "(a mod 4 * 16 + b div 16) div 16 = a mod 4"
    using b16 by (rule div_add_small)
  then show "a div 4 * 4 + (a mod 4 * 16 + b div 16) div 16 = a"
    by simp
  show "a div 4 * 4 + (a mod 4 * 16) div 16 = a"
    by simp
  have hi: "(c mod 4 * 16 + a div 16) mod 16 = a div 16"
    using a16 by (rule mod_add_small)
  have "(a mod 16 * 4 + b div 64) div 4 = a mod 16"
    using b64 by (rule div_add_small)
  with hi show "(c mod 4 * 16 + a div 16) mod 16 * 16 + (a mod 16 * 4 + b div 64) div 4 = a"
    by simp
  from hi show "(c mod 4 * 16 + a div 16) mod 16 * 16 + (a mod 16 * 4) div 4 = a"
    by simp
  have "(c mod 16 * 4 + a div 64) mod 4 = a div 64"
    using a64 by (rule mod_add_small)
  then show "(c mod 16 * 4 + a div 64) mod 4 * 64 + a mod 64 = a"
    by simp
qed

lemma of_nat_unat_byte: "of_nat (unat a) = (a :: 8 word)"
  by simp

lemma b64decode_group:
  assumes "s1 < 64" and "s2 < 64" and "s3 < 64" and "s4 < 64"
  shows "b64decode (b64_char s1 # b64_char s2 # b64_char s3 # b64_char s4 # rest) =
     (case b64decode rest of
        Some bs \<Rightarrow> Some (of_nat (s1 * 4 + s2 div 16) # of_nat (s2 mod 16 * 16 + s3 div 4)
                         # of_nat (s3 mod 4 * 64 + s4) # bs)
      | None \<Rightarrow> None)"
  using assms by (simp add: b64_index_char b64_char_no_pad split: option.splits)

lemma b64decode_pad1:
  assumes "s1 < 64" and "s2 < 64" and "s3 < 64"
  shows "b64decode [b64_char s1, b64_char s2, b64_char s3, CHR ''=''] =
     Some [of_nat (s1 * 4 + s2 div 16), of_nat (s2 mod 16 * 16 + s3 div 4)]"
  using assms by (simp add: b64_index_char b64_char_no_pad)

lemma b64decode_pad2:
  assumes "s1 < 64" and "s2 < 64"
  shows "b64decode [b64_char s1, b64_char s2, CHR ''='', CHR ''=''] =
     Some [of_nat (s1 * 4 + s2 div 16)]"
  using assms by (simp add: b64_index_char)

lemma b64_roundtrip: "b64decode (b64encode bs) = Some bs"
proof (induction bs rule: b64encode.induct)
  case 1
  then show ?case by simp
next
  case (2 a)
  have ua: "unat a < 256" by (rule unat_byte)
  have j: "(of_nat (unat a div 4 * 4 + unat a mod 4 * 16 div 16) :: 8 word) = a"
    by (simp only: sextet_join(2) [OF ua ua] of_nat_unat_byte)
  show ?case
    by (simp only: b64encode.simps b64decode_pad2 [OF sextet_bounds(1,2) [OF ua ua]] j)
next
  case (3 a b)
  have ua: "unat a < 256" and ub: "unat b < 256" by (rule unat_byte)+
  have j1: "(of_nat (unat a div 4 * 4 + (unat a mod 4 * 16 + unat b div 16) div 16) :: 8 word) = a"
    by (simp only: sextet_join(1) [OF ua ub] of_nat_unat_byte)
  have j2: "(of_nat ((unat a mod 4 * 16 + unat b div 16) mod 16 * 16 + unat b mod 16 * 4 div 4)
      :: 8 word) = b"
    by (simp only: sextet_join(4) [OF ub ub] of_nat_unat_byte)
  show ?case
    by (simp only: b64encode.simps
        b64decode_pad1 [OF sextet_bounds(1) [OF ua ub] sextet_bounds(3) [OF ua ub]
          sextet_bounds(4) [OF ua ub]] j1 j2)
next
  case (4 a b c rest)
  have ua: "unat a < 256" and ub: "unat b < 256" and uc: "unat c < 256" by (rule unat_byte)+
  have j1: "(of_nat (unat a div 4 * 4 + (unat a mod 4 * 16 + unat b div 16) div 16) :: 8 word) = a"
    by (simp only: sextet_join(1) [OF ua ub] of_nat_unat_byte)
  have j2: "(of_nat ((unat a mod 4 * 16 + unat b div 16) mod 16 * 16
      + (unat b mod 16 * 4 + unat c div 64) div 4) :: 8 word) = b"
    by (simp only: sextet_join(3) [OF ub uc] of_nat_unat_byte)
  have j3: "(of_nat ((unat b mod 16 * 4 + unat c div 64) mod 4 * 64 + unat c mod 64) :: 8 word) = c"
    by (simp only: sextet_join(5) [OF uc uc] of_nat_unat_byte)
  show ?case
    by (simp only: b64encode.simps append_Cons append_Nil
        b64decode_group [OF sextet_bounds(1) [OF ua ub] sextet_bounds(3) [OF ua ub]
          sextet_bounds(5) [OF uc ub] sextet_bounds(6) [OF uc ub]] "4.IH" option.case j1 j2 j3)
qed

section \<open>Leaf values\<close>

lemma NodeId_of_inject [simp]: "NodeId_of a = NodeId_of b \<longleftrightarrow> a = b"
  by (simp add: NodeId_of_def)

lemma leaf_kind_of_Boolean:
  assumes "ObjectIds E ''NodeId'' = Some n" and "ObjectIds E ''Guid'' = Some g"
    and "ObjectIds E ''Boolean'' = Some b" and "b \<noteq> n" and "b \<noteq> g"
  shows "leaf_kind_of E (NodeId_of b) = Inr BooleanLeaf"
  using assms by (simp add: leaf_kind_of_def getattr_ObjectIds_def)

lemma leaf_kind_of_ByteString:
  assumes "ObjectIds E ''NodeId'' = Some n" and "ObjectIds E ''Guid'' = Some g"
    and "ObjectIds E ''Boolean'' = Some b" and "ObjectIds E ''ByteString'' = Some s"
    and "s \<noteq> n" and "s \<noteq> g" and "s \<noteq> b"
  shows "leaf_kind_of E (NodeId_of s) = Inr ByteStringLeaf"
  using assms by (simp add: leaf_kind_of_def getattr_ObjectIds_def)

text \<open>
  Claim C8. Let the table give the ids of NodeId, Guid, Boolean and ByteString, all
  different. For the Boolean type, \<open>_val_to_etree\<close> sets the text of the element to
  \<open>true\<close> when the value is truthy and to \<open>false\<close> otherwise. For the ByteString type
  and a byte sequence, the text is the base64 encoding of the bytes, and decoding it
  gives the bytes back; for \<open>None\<close> the text is the base64 encoding of no bytes.
\<close>

theorem boolean_and_bytestring_text:
  assumes "ObjectIds E ''NodeId'' = Some n" and "ObjectIds E ''Guid'' = Some g"
    and "ObjectIds E ''Boolean'' = Some b" and "ObjectIds E ''ByteString'' = Some s"
    and "distinct [n, g, b, s]"
  shows "val_to_etree E el (NodeId_of b) val
           = Inr (set_text (Some (if truthy val then ''true'' else ''false'')) el)
       \<and> val_to_etree E el (NodeId_of s) (VBytes bs) = Inr (set_text (Some (b64encode bs)) el)
       \<and> b64decode (b64encode bs) = Some bs
       \<and> val_to_etree E el (NodeId_of s) VNone = Inr (set_text (Some (b64encode [])) el)"
proof -
  have kb: "leaf_kind_of E (NodeId_of b) = Inr BooleanLeaf"
    using assms by (intro leaf_kind_of_Boolean) auto
  have ks: "leaf_kind_of E (NodeId_of s) = Inr ByteStringLeaf"
    using assms by (intro leaf_kind_of_ByteString) auto
  show ?thesis
    by (simp add: val_to_etree.simps kb ks b64_text_def b64_roundtrip)
qed

lemma example_ids_lookup:
  "ObjectIds example_env ''NodeId'' = Some 17" "ObjectIds example_env ''Guid'' = Some 14"
  "ObjectIds example_env ''Boolean'' = Some 1" "ObjectIds example_env ''ByteString'' = Some 15"
  by (simp_all add: example_env_def example_ids_def)

theorem boolean_and_bytestring_text_witness:
  "ObjectIds example_env ''NodeId'' = Some 17 \<and> ObjectIds example_env ''Guid'' = Some 14
   \<and> ObjectIds example_env ''Boolean'' = Some 1 \<and> ObjectIds example_env ''ByteString'' = Some 15
   \<and> distinct [17, 14, 1, 15 :: int]
   \<and> val_to_etree example_env (Element ''uax:Boolean'' [] None []) (NodeId_of 1) (VBool False)
       = Inr (Element ''uax:Boolean'' [] (Some ''false'') [])
   \<and> val_to_etree example_env (Element ''uax:ByteString'' [] None []) (NodeId_of 15)
         (VBytes [77, 97, 110, 121])
       = Inr (Element ''uax:ByteString'' [] (Some ''TWFueQ=='') [])
   \<and> b64decode ''TWFueQ=='' = Some [77, 97, 110, 121]
   \<and> val_to_etree example_env (Element ''uax:ByteString'' [] None []) (NodeId_of 15) VNone
       = Inr (Element ''uax:ByteString'' [] (Some []) [])"
proof -
  have d: "distinct [17, 14, 1, 15 :: int]"
    by simp
  have e: "b64encode [77, 97, 110, 121] = ''TWFueQ==''"
    by (simp add: b64_char_def b64_alphabet_def)
  note r = boolean_and_bytestring_text [OF example_ids_lookup d]
  note r1 = r [where el = "Element ''uax:Boolean'' [] None []" and val = "VBool False"
        and bs = "[77, 97, 110, 121]"]
  note r2 = r [where el = "Element ''uax:ByteString'' [] None []" and val = "VBool False"
        and bs = "[77, 97, 110, 121]"]
  have c1: "val_to_etree example_env (Element ''uax:Boolean'' [] None []) (NodeId_of 1) (VBool False)
       = Inr (Element ''uax:Boolean'' [] (Some ''false'') [])"
    using r1 [THEN conjunct1] by (simp add: set_text_def)
  have c2: "val_to_etree example_env (Element ''uax:ByteString'' [] None []) (NodeId_of 15)
         (VBytes [77, 97, 110, 121])
       = Inr (Element ''uax:ByteString'' [] (Some ''TWFueQ=='') [])"
    using r2 [THEN conjunct2, THEN conjunct1] unfolding e by (simp add: set_text_def)
  have c3: "b64decode ''TWFueQ=='' = Some [77, 97, 110, 121]"
    using r2 [THEN conjunct2, THEN conjunct2, THEN conjunct1] unfolding e .
  have c4: "val_to_etree example_env (Element ''uax:ByteString'' [] None []) (NodeId_of 15) VNone
       = Inr (Element ''uax:ByteString'' [] (Some []) [])"
    using r2 [THEN conjunct2, THEN conjunct2, THEN conjunct2] by (simp add: set_text_def)
  from example_ids_lookup d c1 c2 c3 c4 show ?thesis
    by (intro conjI)
qed

section \<open>The alias registry\<close>

lemma aliases_set_alias:
  "aliases (set_alias k v self) = AList.update k v (aliases self)"
  by (simp add: set_alias_def)

lemma register_all_Cons:
  "register_all ((k, v) # regs) self = register_all regs (set_alias k v self)"
  by (simp add: register_all_def)

lemma register_all_keys:
  "fst ` set (aliases (register_all regs self)) = fst ` set (aliases self) \<union> fst ` set regs"
proof (induction regs arbitrary: self)
  case Nil
  then show ?case by (simp add: register_all_def)
next
  case (Cons r regs)
  obtain k v where r: "r = (k, v)" by (cases r)
  have "fst ` set (aliases (register_all (r # regs) self))
      = fst ` set (AList.update k v (aliases self)) \<union> fst ` set regs"
    by (simp only: r register_all_Cons Cons.IH aliases_set_alias)
  also have "\<dots> = fst ` set (aliases self) \<union> fst ` set (r # regs)"
    by (simp add: dom_update r)
  finally show ?case .
qed

lemma register_all_distinct:
  "distinct (map fst (aliases self)) \<Longrightarrow> distinct (map fst (aliases (register_all regs self)))"
proof (induction regs arbitrary: self)
  case Nil
  then show ?case by (simp add: register_all_def)
next
  case (Cons r regs)
  obtain k v where r: "r = (k, v)" by (cases r)
  have "distinct (map fst (aliases (set_alias k v self)))"
    using Cons.prems by (simp add: aliases_set_alias distinct_update)
  then show ?case
    unfolding r register_all_Cons by (rule Cons.IH)
qed

lemma map_add_upd_split: "m(k \<mapsto> v) ++ n = m ++ ([k \<mapsto> v] ++ n)"
  by (rule ext) (simp add: map_add_def split: option.splits)

lemma register_all_map_of:
  "map_of (aliases (register_all regs self)) = map_of (aliases self) ++ map_of (rev regs)"
proof (induction regs arbitrary: self)
  case Nil
  then show ?case by (simp add: register_all_def)
next
  case (Cons r regs)
  obtain k v where r: "r = (k, v)" by (cases r)
  have a: "map_of (aliases (set_alias k v self)) = (map_of (aliases self))(k \<mapsto> v)"
    unfolding aliases_set_alias by (rule update_conv')
  have "map_of (aliases (register_all (r # regs) self))
      = (map_of (aliases self))(k \<mapsto> v) ++ map_of (rev regs)"
    by (simp only: r register_all_Cons Cons.IH a)
  also have "\<dots> = map_of (aliases self) ++ ([k \<mapsto> v] ++ map_of (rev regs))"
    by (rule map_add_upd_split)
  also have "[k \<mapsto> v] ++ map_of (rev regs) = map_of (rev (r # regs))"
    by (simp add: r)
  finally show ?case .
qed

lemma insort_lt_set: "set (insort_lt lt x ys) = insert x (set ys)"
  by (induction ys) auto

lemma insort_lt_distinct: "distinct ys \<Longrightarrow> x \<notin> set ys \<Longrightarrow> distinct (insort_lt lt x ys)"
  by (induction ys) (auto simp: insort_lt_set)

lemma insort_lt_sorted:
  assumes trans: "\<And>a b c. lt a b \<Longrightarrow> lt b c \<Longrightarrow> lt a c"
  shows "sorted_wrt lt ys \<Longrightarrow> \<forall>b\<in>set ys. lt x b \<or> lt b x \<Longrightarrow> sorted_wrt lt (insort_lt lt x ys)"
proof (induction ys)
  case Nil
  then show ?case by simp
next
  case (Cons y ys)
  from Cons.prems(1) have sy: "\<forall>z\<in>set ys. lt y z" and s: "sorted_wrt lt ys"
    by simp_all
  from Cons.prems(2) have ty: "lt x y \<or> lt y x" and tys: "\<forall>b\<in>set ys. lt x b \<or> lt b x"
    by simp_all
  show ?case
  proof (cases "lt x y")
    case True
    have "\<forall>z\<in>set ys. lt x z"
      using True sy trans by blast
    with True sy s show ?thesis by simp
  next
    case False
    with ty have yx: "lt y x" by blast
    have "sorted_wrt lt (insort_lt lt x ys)"
      using s tys by (rule Cons.IH)
    with False yx sy show ?thesis
      by (simp add: insort_lt_set)
  qed
qed

lemma sort_lt_loop_props:
  assumes trans: "\<And>a b c. lt a b \<Longrightarrow> lt b c \<Longrightarrow> lt a c"
  shows "distinct (acc @ xs) \<Longrightarrow> sorted_wrt lt acc \<Longrightarrow>
     \<forall>a\<in>set (acc @ xs). \<forall>b\<in>set (acc @ xs). a \<noteq> b \<longrightarrow> lt a b \<or> lt b a \<Longrightarrow>
     set (sort_lt_loop lt acc xs) = set (acc @ xs)
     \<and> distinct (sort_lt_loop lt acc xs) \<and> sorted_wrt lt (sort_lt_loop lt acc xs)"
proof (induction xs arbitrary: acc)
  case Nil
  then show ?case by simp
next
  case (Cons x xs)
  have eq: "set (insort_lt lt x acc @ xs) = set (acc @ x # xs)"
    by (simp add: insort_lt_set)
  from Cons.prems(1) have xa: "x \<notin> set acc" and da: "distinct acc"
    by simp_all
  have tb: "\<forall>b\<in>set acc. lt x b \<or> lt b x"
  proof
    fix b assume b: "b \<in> set acc"
    with xa have "x \<noteq> b" by blast
    moreover have "x \<in> set (acc @ x # xs)" "b \<in> set (acc @ x # xs)"
      using b by simp_all
    ultimately show "lt x b \<or> lt b x"
      using Cons.prems(3) by blast
  qed
  have s: "sorted_wrt lt (insort_lt lt x acc)"
  proof (rule insort_lt_sorted)
    show "\<And>a b c. lt a b \<Longrightarrow> lt b c \<Longrightarrow> lt a c" by (rule trans)
    show "sorted_wrt lt acc" by (rule Cons.prems(2))
    show "\<forall>b\<in>set acc. lt x b \<or> lt b x" by (rule tb)
  qed
  have "distinct (insort_lt lt x acc)"
    using da xa by (rule insort_lt_distinct)
  with Cons.prems(1) have d: "distinct (insort_lt lt x acc @ xs)"
    by (auto simp: insort_lt_set)
  have t: "\<forall>a\<in>set (insort_lt lt x acc @ xs). \<forall>b\<in>set (insort_lt lt x acc @ xs).
      a \<noteq> b \<longrightarrow> lt a b \<or> lt b a"
    using Cons.prems(3) by (simp only: eq)
  from Cons.IH [OF d s t] eq show ?case
    by (simp only: sort_lt_loop.simps)
qed

lemma sort_lt_props:
  assumes "distinct xs"
    and "\<And>a b c. lt a b \<Longrightarrow> lt b c \<Longrightarrow> lt a c"
    and "\<forall>a\<in>set xs. \<forall>b\<in>set xs. a \<noteq> b \<longrightarrow> lt a b \<or> lt b a"
  shows "set (sort_lt lt xs) = set xs" "distinct (sort_lt lt xs)" "sorted_wrt lt (sort_lt lt xs)"
proof -
  have "set (sort_lt_loop lt [] xs) = set ([] @ xs)
     \<and> distinct (sort_lt_loop lt [] xs) \<and> sorted_wrt lt (sort_lt_loop lt [] xs)"
    using assms by (intro sort_lt_loop_props) simp_all
  then show "set (sort_lt lt xs) = set xs" "distinct (sort_lt lt xs)"
    "sorted_wrt lt (sort_lt lt xs)"
    by (simp_all add: sort_lt_def)
qed

lemma alias_els_ok:
  "\<forall>k\<in>set ks. k \<in> fst ` set al \<Longrightarrow>
   alias_els E al el ks
     = Inr (Element (tag el) (attrib el) (el_text el) (children el @ map (alias_el E al) ks))"
proof (induction ks arbitrary: el)
  case Nil
  then show ?case by simp
next
  case (Cons k ks)
  from Cons.prems obtain name where "map_of al k = Some name"
    by (metis list.set_intros(1) map_of_eq_None_iff not_Some_eq)
  with Cons show ?case
    by (simp add: append_child_def alias_el_def)
qed

lemma register_all_snoc:
  "register_all (regs @ [(k, v)]) self = set_alias k v (register_all regs self)"
  by (simp add: register_all_def)

lemma set_alias_same:
  "map_of (aliases self) k = Some v \<Longrightarrow> set_alias k v self = self"
  by (simp add: set_alias_def update_triv)

text \<open>
  Claim C7. Let the order on NodeIds be transitive and compare any two different
  registered ids. After any sequence of registrations in one export run, the registry
  has one entry per NodeId, holding the name registered last for it; registering an id
  again with the name it has changes nothing. \<open>_add_alias_els\<close> returns, and the
  Aliases element it inserts has one Alias child per registered NodeId, in ascending
  order of the NodeIds.
\<close>

theorem alias_registry:
  assumes trans: "\<And>a b c. lt a b \<Longrightarrow> lt b c \<Longrightarrow> lt a c"
    and total: "\<forall>a\<in>fst ` set regs. \<forall>b\<in>fst ` set regs. a \<noteq> b \<longrightarrow> lt a b \<or> lt b a"
  shows "distinct (map fst (aliases (register_all regs init_exporter)))
       \<and> map_of (aliases (register_all regs init_exporter)) = map_of (rev regs)
       \<and> (\<forall>k v. map_of (rev regs) k = Some v \<longrightarrow>
             register_all (regs @ [(k, v)]) init_exporter = register_all regs init_exporter)
       \<and> add_alias_els E lt (register_all regs init_exporter)
           = Inr ((register_all regs init_exporter)
               \<lparr>etree_root := insert_child 1
                  (Element ''Aliases'' [] None
                     (map (alias_el E (aliases (register_all regs init_exporter)))
                        (sort_lt lt (map fst (aliases (register_all regs init_exporter))))))
                  (etree_root (register_all regs init_exporter))\<rparr>)
       \<and> set (sort_lt lt (map fst (aliases (register_all regs init_exporter)))) = fst ` set regs
       \<and> distinct (sort_lt lt (map fst (aliases (register_all regs init_exporter))))
       \<and> sorted_wrt lt (sort_lt lt (map fst (aliases (register_all regs init_exporter))))"
proof -
  define s where "s = register_all regs init_exporter"
  define ks where "ks = sort_lt lt (map fst (aliases s))"
  have d: "distinct (map fst (aliases s))"
    unfolding s_def by (rule register_all_distinct) (simp add: init_exporter_def)
  have keys: "set (map fst (aliases s)) = fst ` set regs"
    using register_all_keys [of regs init_exporter] by (simp add: s_def init_exporter_def)
  have m: "map_of (aliases s) = map_of (rev regs)"
    using register_all_map_of [of regs init_exporter] by (simp add: s_def init_exporter_def)
  have idem: "\<forall>k v. map_of (rev regs) k = Some v \<longrightarrow>
      register_all (regs @ [(k, v)]) init_exporter = s"
    using m by (simp add: register_all_snoc set_alias_same s_def)
  have tot: "\<forall>a\<in>set (map fst (aliases s)). \<forall>b\<in>set (map fst (aliases s)). a \<noteq> b \<longrightarrow> lt a b \<or> lt b a"
    using total by (simp only: keys)
  have sk: "set ks = fst ` set regs" and dk: "distinct ks" and ok: "sorted_wrt lt ks"
    using sort_lt_props [OF d trans tot] keys by (simp_all add: ks_def)
  have "\<forall>k\<in>set ks. k \<in> fst ` set (aliases s)"
    using sk keys by simp
  then have "alias_els E (aliases s) (Element ''Aliases'' [] None []) ks
      = Inr (Element ''Aliases'' [] None (map (alias_el E (aliases s)) ks))"
    by (simp add: alias_els_ok)
  then have run: "add_alias_els E lt s = Inr (s\<lparr>etree_root := insert_child 1
      (Element ''Aliases'' [] None (map (alias_el E (aliases s)) ks)) (etree_root s)\<rparr>)"
    by (simp add: add_alias_els_def ks_def)
  from d m idem run sk dk ok show ?thesis
    unfolding s_def ks_def by (intro conjI)
qed

lemma example_lt_trans: "example_lt a b \<Longrightarrow> example_lt b c \<Longrightarrow> example_lt a c"
  by (auto simp: example_lt_def Let_def)

lemma example_regs_total:
  "\<forall>a\<in>fst ` set example_regs. \<forall>b\<in>fst ` set example_regs.
     a \<noteq> b \<longrightarrow> example_lt a b \<or> example_lt b a"
  by (simp add: example_regs_def example_lt_def NodeId_of_def)

lemma example_aliases:
  "aliases (register_all example_regs init_exporter)
     = [(NodeId_of 47, ''HasComponent''), (NodeId_of 6, ''Int32'')]"
  by (simp add: example_regs_def register_all_def set_alias_def init_exporter_def NodeId_of_def)

lemma example_sorted_keys:
  "sort_lt example_lt [NodeId_of 47, NodeId_of 6] = [NodeId_of 6, NodeId_of 47]"
  by (simp add: sort_lt_def example_lt_def NodeId_of_def)

theorem alias_registry_witness:
  "(example_lt (NodeId_of 6) (NodeId_of 47) \<or> example_lt (NodeId_of 47) (NodeId_of 6))
   \<and> aliases (register_all example_regs init_exporter)
       = [(NodeId_of 47, ''HasComponent''), (NodeId_of 6, ''Int32'')]
   \<and> sort_lt example_lt (map fst (aliases (register_all example_regs init_exporter)))
       = [NodeId_of 6, NodeId_of 47]
   \<and> sorted_wrt example_lt
        (sort_lt example_lt (map fst (aliases (register_all example_regs init_exporter))))
   \<and> add_alias_els example_env example_lt (register_all example_regs init_exporter)
       = Inr ((register_all example_regs init_exporter)
           \<lparr>etree_root := insert_child 1
              (Element ''Aliases'' [] None
                 (map (alias_el example_env (aliases (register_all example_regs init_exporter)))
                    (sort_lt example_lt
                       (map fst (aliases (register_all example_regs init_exporter))))))
              (etree_root (register_all example_regs init_exporter))\<rparr>)"
proof -
  note r = alias_registry [of example_lt example_regs example_env,
      OF example_lt_trans example_regs_total]
  have o: "example_lt (NodeId_of 6) (NodeId_of 47) \<or> example_lt (NodeId_of 47) (NodeId_of 6)"
    by (simp add: example_lt_def NodeId_of_def)
  have k: "sort_lt example_lt (map fst (aliases (register_all example_regs init_exporter)))
       = [NodeId_of 6, NodeId_of 47]"
    by (simp add: example_aliases example_sorted_keys)
  from o example_aliases k
    r [THEN conjunct2, THEN conjunct2, THEN conjunct2, THEN conjunct2, THEN conjunct2,
       THEN conjunct2]
    r [THEN conjunct2, THEN conjunct2, THEN conjunct2, THEN conjunct1]
  show ?thesis
    by (intro conjI)
qed

section \<open>Nodes and references\<close>

lemma tag_set_attrib [simp]: "tag (set_attrib k v el) = tag el"
  and children_set_attrib [simp]: "children (set_attrib k v el) = children el"
  and tag_append_child [simp]: "tag (append_child el c) = tag el"
  and children_append_child [simp]: "children (append_child el c) = children el @ [c]"
  and tag_add_sub_el [simp]: "tag (add_sub_el el name txt) = tag el"
  and tag_set_text [simp]: "tag (set_text t el) = tag el"
  by (simp_all add: set_attrib_def append_child_def add_sub_el_def set_text_def)

lemma structure_fields_to_etree_children:
  "structure_fields_to_etree E el flds
     = Element (tag el) (attrib el) (el_text el) (children el @ map (structure_field_el E) flds)"
  by (induction flds arbitrary: el) (simp_all add: append_child_def)

lemma structure_field_el_attrs:
  "tag (structure_field_el E f) = ''Field''"
  "map_of (attrib (structure_field_el E f)) ''Name'' = Some (sf_Name f)"
  "map_of (attrib (structure_field_el E f)) ''IsOptional''
     = (if sf_IsOptional f then Some ''true'' else None)"
  by (simp_all add: structure_field_el_def Let_def set_attrib_def update_conv')

lemma node_to_string_set_alias [simp]:
  "node_to_string E (set_alias k v self) n = node_to_string E self n"
  by (simp add: node_to_string_def set_alias_def)

lemma ref_el_of_set_alias [simp]: "ref_el_of E (set_alias k v self) ref = ref_el_of E self ref"
  by (simp add: ref_el_of_def)

lemma add_ref_loop_eq:
  "add_ref_loop E self refs_el refs
     = (register_all (map (\<lambda>ref. (ReferenceTypeId ref, ref_name_of E ref)) refs) self,
        Element (tag refs_el) (attrib refs_el) (el_text refs_el)
          (children refs_el @ map (ref_el_of E self) refs))"
proof (induction refs arbitrary: self refs_el)
  case Nil
  then show ?case by (simp add: register_all_def)
next
  case (Cons ref refs)
  show ?case
    by (simp add: Cons.IH register_all_def append_child_def)
qed

lemma add_ref_els_eq:
  "get_references obj = Inr refs \<Longrightarrow>
   add_ref_els E self parent_el obj
     = Inr (register_all (map (\<lambda>ref. (ReferenceTypeId ref, ref_name_of E ref)) refs) self,
            append_child parent_el
              (Element ''References'' [] None (map (ref_el_of E self) refs)))"
  by (simp add: add_ref_els_def add_ref_loop_eq)

lemma add_node_common_ok:
  assumes "read_browse_name n = Inr bname" and "get_parent n = Inr parent"
    and "read_display_name n = Inr dn" and "read_description n = Inr desc"
    and "read_node_class n = Inr nc"
  shows "\<exists>el. add_node_common E self nodetype n = Inr el \<and> tag el = nodetype"
  using assms
  by (cases parent) (simp_all add: add_node_common_def Let_def)

lemma etree_root_register_all [simp]:
  "etree_root (register_all regs self) = etree_root self"
  unfolding register_all_def
  by (induction regs arbitrary: self) (auto simp: set_alias_def)

lemma example_datatype_reads:
  "read_browse_name example_datatype_node = Inr \<lparr>qn_Name = ''MyStruct'', qn_NamespaceIndex = 2\<rparr>"
  "get_parent example_datatype_node = Inr None"
  "read_display_name example_datatype_node = Inr (Some ''MyStruct'')"
  "read_description example_datatype_node = Inr None"
  "read_node_class example_datatype_node = Inr DataType"
  "get_references example_datatype_node = Inr
     [\<lparr>ReferenceTypeId = NodeId_of 45, IsForward = False, NodeId = NodeId_of 22\<rparr>]"
  "read_data_type_definition example_datatype_node = Inr (Some (StructureDefinition
     [\<lparr>sf_Name = ''Name'', sf_DataType = NodeId_of 12, sf_ValueRank = - 1,
       sf_ArrayDimensions = [], sf_IsOptional = False\<rparr>,
      \<lparr>sf_Name = ''Value'', sf_DataType = NodeId_of 6, sf_ValueRank = - 1,
       sf_ArrayDimensions = [], sf_IsOptional = True\<rparr>]))"
  by (simp_all add: example_datatype_node_def example_node_def)

text \<open>
  Claim C6, amended. For a DataType node with a structure definition whose reads
  succeed, \<open>add_etree_datatype\<close> returns and adds one node element to the root; that
  element has a Definition child, named after the browse name and followed by the
  References element, with exactly one Field child per member of the definition, in
  order; each Field carries the name of its member, and an optional member is written
  too, with the attribute \<open>IsOptional\<close> set to \<open>true\<close>.
\<close>

theorem datatype_definition_fields:
  assumes "read_browse_name obj = Inr bname" and "get_parent obj = Inr parent"
    and "read_display_name obj = Inr dn" and "read_description obj = Inr desc"
    and "read_node_class obj = Inr nc" and "get_references obj = Inr refs"
    and "read_data_type_definition obj = Inr (Some (StructureDefinition flds))"
  shows "\<exists>self' obj_el pre refs_el.
           add_etree_datatype E self obj = Inr self'
         \<and> children (etree_root self') = children (etree_root self) @ [obj_el]
         \<and> tag obj_el = ''UADataType''
         \<and> children obj_el
             = pre @ [Element ''Definition'' [(''Name'', qn_Name bname)] None
                        (map (structure_field_el E) flds),
                      refs_el]
         \<and> tag refs_el = ''References''
         \<and> length (map (structure_field_el E) flds) = length flds
         \<and> list_all (\<lambda>f. tag (structure_field_el E f) = ''Field''
               \<and> map_of (attrib (structure_field_el E f)) ''Name'' = Some (sf_Name f)
               \<and> map_of (attrib (structure_field_el E f)) ''IsOptional''
                   = (if sf_IsOptional f then Some ''true'' else None)) flds"
proof -
  from add_node_common_ok [OF assms(1-5), of E self "''UADataType''"]
  obtain el where el: "add_node_common E self ''UADataType'' obj = Inr el" "tag el = ''UADataType''"
    by blast
  let ?def = "Element ''Definition'' [(''Name'', qn_Name bname)] None
      (map (structure_field_el E) flds)"
  let ?refs = "Element ''References'' [] None (map (ref_el_of E self) refs)"
  let ?self' = "(register_all (map (\<lambda>ref. (ReferenceTypeId ref, ref_name_of E ref)) refs) self)
      \<lparr>etree_root := append_child (etree_root self) (append_child (append_child el ?def) ?refs)\<rparr>"
  have run: "add_etree_datatype E self obj = Inr ?self'"
    using assms el
    by (simp add: add_etree_datatype_def add_ref_els_eq structure_fields_to_etree_children
        set_attrib_def Let_def)
  have fields: "list_all (\<lambda>f. tag (structure_field_el E f) = ''Field''
               \<and> map_of (attrib (structure_field_el E f)) ''Name'' = Some (sf_Name f)
               \<and> map_of (attrib (structure_field_el E f)) ''IsOptional''
                   = (if sf_IsOptional f then Some ''true'' else None)) flds"
    by (simp add: list_all_iff structure_field_el_attrs)
  show ?thesis
    apply (rule exI [of _ ?self'])
    apply (rule exI [of _ "append_child (append_child el ?def) ?refs"])
    apply (rule exI [of _ "children el"])
    apply (rule exI [of _ ?refs])
    using run el fields by simp
qed

theorem datatype_definition_fields_witness:
  "read_browse_name example_datatype_node = Inr \<lparr>qn_Name = ''MyStruct'', qn_NamespaceIndex = 2\<rparr>
   \<and> read_data_type_definition example_datatype_node = Inr (Some (StructureDefinition
       [\<lparr>sf_Name = ''Name'', sf_DataType = NodeId_of 12, sf_ValueRank = - 1,
         sf_ArrayDimensions = [], sf_IsOptional = False\<rparr>,
        \<lparr>sf_Name = ''Value'', sf_DataType = NodeId_of 6, sf_ValueRank = - 1,
         sf_ArrayDimensions = [], sf_IsOptional = True\<rparr>]))
   \<and> (\<exists>self' obj_el pre refs_el.
         add_etree_datatype example_env init_exporter example_datatype_node = Inr self'
       \<and> children (etree_root self') = children (etree_root init_exporter) @ [obj_el]
       \<and> children obj_el
           = pre @ [Element ''Definition'' [(''Name'', ''MyStruct'')] None
                      (map (structure_field_el example_env)
                         [\<lparr>sf_Name = ''Name'', sf_DataType = NodeId_of 12, sf_ValueRank = - 1,
                           sf_ArrayDimensions = [], sf_IsOptional = False\<rparr>,
                          \<lparr>sf_Name = ''Value'', sf_DataType = NodeId_of 6, sf_ValueRank = - 1,
                           sf_ArrayDimensions = [], sf_IsOptional = True\<rparr>]),
                    refs_el])"
proof -
  from datatype_definition_fields [OF example_datatype_reads, of example_env init_exporter]
  obtain self' obj_el pre refs_el where
    "add_etree_datatype example_env init_exporter example_datatype_node = Inr self'"
    "children (etree_root self') = children (etree_root init_exporter) @ [obj_el]"
    "children obj_el
       = pre @ [Element ''Definition''
                  [(''Name'', qn_Name \<lparr>qn_Name = ''MyStruct'', qn_NamespaceIndex = 2\<rparr>)] None
                  (map (structure_field_el example_env)
                     [\<lparr>sf_Name = ''Name'', sf_DataType = NodeId_of 12, sf_ValueRank = - 1,
                       sf_ArrayDimensions = [], sf_IsOptional = False\<rparr>,
                      \<lparr>sf_Name = ''Value'', sf_DataType = NodeId_of 6, sf_ValueRank = - 1,
                       sf_ArrayDimensions = [], sf_IsOptional = True\<rparr>]),
                refs_el]"
    by blast
  then have "\<exists>self' obj_el pre refs_el.
         add_etree_datatype example_env init_exporter example_datatype_node = Inr self'
       \<and> children (etree_root self') = children (etree_root init_exporter) @ [obj_el]
       \<and> children obj_el
           = pre @ [Element ''Definition'' [(''Name'', ''MyStruct'')] None
                      (map (structure_field_el example_env)
                         [\<lparr>sf_Name = ''Name'', sf_DataType = NodeId_of 12, sf_ValueRank = - 1,
                           sf_ArrayDimensions = [], sf_IsOptional = False\<rparr>,
                          \<lparr>sf_Name = ''Value'', sf_DataType = NodeId_of 6, sf_ValueRank = - 1,
                           sf_ArrayDimensions = [], sf_IsOptional = True\<rparr>]),
                    refs_el]"
    by (intro exI [of _ self'] exI [of _ obj_el] exI [of _ pre] exI [of _ refs_el]) simp
  with example_datatype_reads(1,7) show ?thesis
    by (intro conjI)
qed

text \<open>The claim as stated fails: the definition with the fields Name and Value (optional)
  gets two Field children, not one.\<close>

theorem datatype_definition_counterexample:
  "add_etree_datatype example_env init_exporter example_datatype_node
     = Inr (init_exporter
         \<lparr>aliases := [(NodeId_of 45, ''HasSubtype'')],
          etree_root := append_child (etree_root init_exporter)
            (Element ''UADataType'' [(''NodeId'', ''ns=2;i=3001''), (''BrowseName'', ''2:MyStruct'')]
               None
               [Element ''DisplayName'' [] (Some ''MyStruct'') [],
                Element ''Definition'' [(''Name'', ''MyStruct'')] None
                  [Element ''Field'' [(''Name'', ''Name''), (''Datatype'', ''i=12'')] None [],
                   Element ''Field''
                     [(''Name'', ''Value''), (''Datatype'', ''i=6''), (''IsOptional'', ''true'')]
                     None []],
                Element ''References'' [] None
                  [Element ''Reference''
                     [(''ReferenceType'', ''HasSubtype''), (''IsForward'', ''false'')]
                     (Some ''i=22'') []]])\<rparr>)"
  by (simp add: example_datatype_node_def example_node_def example_env_def example_ids_def
      init_exporter_def add_etree_datatype_def add_node_common_def add_ref_els_def
      ref_el_of_def ref_name_of_def lookup_name_def node_to_string_def bname_to_string_def
      example_to_string_def example_qn_to_string_def str_int_def str_nat.simps
      structure_field_el_def set_attrib_def set_text_def append_child_def add_sub_el_def
      set_alias_def NodeId_of_def Let_def)

subsection \<open>References\<close>









subsection \<open>Values\<close>

lemma value_to_etree'_frame:
  "value_to_etree' E el type_name dtype val
     = bindE (encoded_children E type_name dtype val) (\<lambda>ks.
         Inr (Element (tag el) (attrib el) (el_text el) (children el @ ks)))"
  by (cases el; cases val)
     (simp_all add: encoded_children_def value_to_etree'.simps extobj_to_etree.simps
        append_child_def split: sum.splits resolved.splits)

lemma foldE_value_to_etree':
  "list_all2 (\<lambda>v ks. encoded_children E type_name dtype v = Inr ks) vals kidss \<Longrightarrow>
   foldE (\<lambda>list_el nval. value_to_etree' E list_el type_name dtype nval) vals list_el
     = Inr (Element (tag list_el) (attrib list_el) (el_text list_el)
              (children list_el @ concat kidss))"
proof (induction vals kidss arbitrary: list_el rule: list_all2_induct)
  case Nil
  then show ?case by simp
next
  case (Cons v vals ks kidss)
  have "value_to_etree' E list_el type_name dtype v
      = Inr (Element (tag list_el) (attrib list_el) (el_text list_el) (children list_el @ ks))"
    using Cons.hyps(1) by (subst value_to_etree'_frame) simp
  then show ?case
    using Cons.IH by simp
qed

lemma value_to_etree'_VList:
  "value_to_etree' E el type_name dtype (VList vals)
     = (case is_builtin dtype of
          Inl e \<Rightarrow> Inl e
        | Inr b \<Rightarrow>
            (case foldE (\<lambda>list_el nval. value_to_etree' E list_el type_name dtype nval) vals
                    (Element (if b then ''uax:ListOf'' @ type_name
                              else ''uax:ListOfExtensionObject'') [] None []) of
               Inl e \<Rightarrow> Inl e
             | Inr list_el \<Rightarrow> Inr (append_child el list_el)))"
  by (subst value_to_etree'.simps) simp

lemma example_encoded_children:
  "encoded_children example_env ''Int32'' (NodeId_of 6) (VInt 1) = Inr [Element ''uax:Int32'' [] (Some ''1'') []]"
  "encoded_children example_env ''Int32'' (NodeId_of 6) VNone = Inr []"
  "encoded_children example_env ''Int32'' (NodeId_of 6) (VInt 3) = Inr [Element ''uax:Int32'' [] (Some ''3'') []]"
  by (simp_all add: encoded_children_def value_to_etree'.simps val_to_etree.simps
      resolve_base_def is_builtin_def
      leaf_kind_of_def getattr_ObjectIds_def getitem_ObjectIdNames_def lookup_name_def
      example_env_def example_ids_def example_str_def
      str_int_def str_nat.simps
      set_text_def append_child_def NodeId_of_def)

text \<open>
  Claim C5, amended. Let the declared type of a list have a numeric identifier when it is in
  namespace 0, and let every element of the list be encoded without an exception.
  Then \<open>_value_to_etree\<close> appends one wrapper element to the element it writes under:
  its tag is \<open>uax:ListOf\<close> followed by the type name when the declared type is in
  namespace 0 with an identifier up to 21, and \<open>uax:ListOfExtensionObject\<close> otherwise;
  its children are what the elements of the list encode to, in the order of the list.
  For the empty list the wrapper has no children.
\<close>

theorem value_to_etree_array:
  assumes "NamespaceIndex dtype = 0 \<longrightarrow> (\<exists>n. Identifier dtype = Numeric n)"
    and "list_all2 (\<lambda>v ks. encoded_children E type_name dtype v = Inr ks) vals kidss"
  shows "value_to_etree' E el type_name dtype (VList vals)
           = Inr (append_child el
                    (Element (if NamespaceIndex dtype = 0
                                  \<and> (\<exists>n. Identifier dtype = Numeric n \<and> n \<le> 21)
                              then ''uax:ListOf'' @ type_name
                              else ''uax:ListOfExtensionObject'') [] None (concat kidss)))
       \<and> value_to_etree' E el type_name dtype (VList [])
           = Inr (append_child el
                    (Element (if NamespaceIndex dtype = 0
                                  \<and> (\<exists>n. Identifier dtype = Numeric n \<and> n \<le> 21)
                              then ''uax:ListOf'' @ type_name
                              else ''uax:ListOfExtensionObject'') [] None []))"
proof -
  have b: "is_builtin dtype
      = Inr (NamespaceIndex dtype = 0 \<and> (\<exists>n. Identifier dtype = Numeric n \<and> n \<le> 21))"
    using assms(1) by (auto simp: is_builtin_def split: node_identifier.splits)
  have "list_all2 (\<lambda>v ks. encoded_children E type_name dtype v = Inr ks) [] []"
    by simp
  note nil = foldE_value_to_etree' [OF this]
  show ?thesis
    unfolding value_to_etree'_VList b foldE_value_to_etree' [OF assms(2)] nil
    by simp
qed

theorem value_to_etree_array_witness:
  "list_all2 (\<lambda>v ks. encoded_children example_env ''Int32'' (NodeId_of 6) v = Inr ks)
     [VInt 1, VNone, VInt 3]
     [[Element ''uax:Int32'' [] (Some ''1'') []], [], [Element ''uax:Int32'' [] (Some ''3'') []]]
   \<and> value_to_etree' example_env (Element ''Value'' [] None []) ''Int32'' (NodeId_of 6)
       (VList [VInt 1, VNone, VInt 3])
     = Inr (Element ''Value'' [] None
              [Element ''uax:ListOfInt32'' [] None
                 [Element ''uax:Int32'' [] (Some ''1'') [],
                  Element ''uax:Int32'' [] (Some ''3'') []]])
   \<and> value_to_etree' example_env (Element ''Value'' [] None []) ''Int32'' (NodeId_of 6) (VList [])
     = Inr (Element ''Value'' [] None [Element ''uax:ListOfInt32'' [] None []])"
proof -
  have h1: "NamespaceIndex (NodeId_of 6) = 0 \<longrightarrow> (\<exists>n. Identifier (NodeId_of 6) = Numeric n)"
    by (simp add: NodeId_of_def)
  have h2: "list_all2 (\<lambda>v ks. encoded_children example_env ''Int32'' (NodeId_of 6) v = Inr ks)
     [VInt 1, VNone, VInt 3]
     [[Element ''uax:Int32'' [] (Some ''1'') []], [], [Element ''uax:Int32'' [] (Some ''3'') []]]"
    by (simp add: example_encoded_children)
  have t: "(if NamespaceIndex (NodeId_of 6) = 0
                                  \<and> (\<exists>n. Identifier (NodeId_of 6) = Numeric n \<and> n \<le> 21)
                              then ''uax:ListOf'' @ ''Int32''
                              else ''uax:ListOfExtensionObject'') = ''uax:ListOfInt32''"
    by (simp add: NodeId_of_def)
  from value_to_etree_array [OF h1 h2, of "Element ''Value'' [] None []"] h2
  show ?thesis
    unfolding t by (simp add: append_child_def)
qed

text \<open>The claim as stated fails: for a declared type in namespace 0 whose identifier
  is a string, the comparison \<open>dtype.Identifier <= 21\<close> raises TypeError, and no
  wrapper element is written, for the empty list as for any other.\<close>

theorem value_to_etree_array_counterexample:
  "value_to_etree' example_env (Element ''Value'' [] None []) ''Speed''
     \<lparr>Identifier = StringId ''Speed'', NamespaceIndex = 0\<rparr> (VList [])
   = Inl TypeError
   \<and> value_to_etree' example_env (Element ''Value'' [] None []) ''Speed''
       \<lparr>Identifier = StringId ''Speed'', NamespaceIndex = 0\<rparr> (VList [VInt 1])
   = Inl TypeError"
  unfolding value_to_etree'_VList by (simp add: is_builtin_def)

text \<open>
  Claim C1. The Argument value without a name, encoded under a Value element: the
  members are written in their declared order, as \<open>ua_types\<close> lists them, and the
  member \<open>Name\<close>, which is \<open>None\<close>, is written as an empty element. The table
  \<open>extobj_ordered_elements\<close> is read only by \<open>_get_member_order\<close>, which
  \<open>_extobj_to_etree\<close> does not call.
\<close>

theorem extobj_to_etree_argument:
  "value_to_etree' example_env (Element ''Value'' [] None []) ''Argument'' (NodeId_of 296)
     example_argument
   = Inr (Element ''Value'' [] None
       [Element ''uax:ExtensionObject'' [] None
         [Element ''uax:TypeId'' [] None
           [Element ''uax:Identifier'' [] (Some ''i=296'') []],
          Element ''uax:Body'' [] None
           [Element ''uax:Argument'' [] None
             [Element ''uax:Name'' [] None [],
              Element ''uax:DataType'' [] None
               [Element ''uax:Identifier'' [] (Some ''i=6'') []],
              Element ''uax:ValueRank'' [] (Some ''-1'') [],
              Element ''uax:ArrayDimensions'' [] None [],
              Element ''uax:Description'' [] None
               [Element ''uax:Encoding'' [] (Some ''2'') [],
                Element ''uax:Locale'' [] None [],
                Element ''uax:Text'' [] (Some ''speed'') []]]]]])"
  by (simp add: example_argument_def value_to_etree'.simps val_to_etree.simps
      member_to_etree.simps extobj_to_etree.simps resolve_base_def is_builtin_def
      leaf_kind_of_def getattr_ObjectIds_def getitem_ObjectIdNames_def lookup_name_def
      val_to_string_def startswith_def
      example_env_def example_ids_def example_to_string_def example_str_def
      str_int_def str_nat.simps add_sub_el_def
      set_attrib_def set_text_def append_child_def NodeId_of_def Let_def)

end
